theory Spec2Isabelle
  imports Main "HOL-Library.AList"
begin

section \<open>The node-local driver of the GPU allocation plugin (driver.go)\<close>

text \<open>
  The theory embeds \<^verbatim>\<open>cmd/nvidia-dra-plugin/driver.go\<close>: the driver's constructor, its
  prepare and unprepare operations and the reconciliation loop with its cleanup fan-out.
  The record client (\<^verbatim>\<open>nasclient\<close>), the device state (\<^verbatim>\<open>DeviceState\<close>) and the
  conflict-retry helper of the client library are not part of that file. The driver is
  therefore written over a record of collaborator operations, taken as a parameter, and a
  second, concrete set of collaborators is modelled from the specification to run the driver
  on concrete inputs.
\<close>

subsection \<open>Errors\<close>

text \<open>
  A Go \<^verbatim>\<open>error\<close> value. \<open>Conflict\<close> is the API server's status error with reason
  Conflict (a stale version on a write), \<open>Failure\<close> any other error with its message, and
  \<open>Wrap p e\<close> is \<^verbatim>\<open>fmt.Errorf("p: %w", e)\<close>.
\<close>

datatype error = Conflict string | Failure string | Wrap string error

fun IsConflict :: "error \<Rightarrow> bool" where
  "IsConflict (Conflict m) = True"
| "IsConflict (Failure m) = False"
| "IsConflict (Wrap p e) = IsConflict e"

text \<open>The decimal digits of a number, as \<^verbatim>\<open>%v\<close> prints an int that is not negative.\<close>

definition digit :: "nat \<Rightarrow> char" where
  "digit d = ''0123456789'' ! d"

fun string_of_nat :: "nat \<Rightarrow> string" where
  "string_of_nat n =
     (if n < 10 then [digit n] else string_of_nat (n div 10) @ [digit (n mod 10)])"

declare string_of_nat.simps [simp del]

subsection \<open>The allocation record\<close>

text \<open>
  \<open>'a\<close> is the type of the allocation details of a claim (\<^verbatim>\<open>AllocatedDevices\<close>) and \<open>'p\<close>
  the type of its prepared devices (\<^verbatim>\<open>PreparedDevices\<close>); neither is declared in driver.go.
  A Go map is an association list: \<open>map_of\<close> looks a key up, and the order of the list is the
  order in which \<^verbatim>\<open>range\<close> happens to visit the keys. A Go map holds a key once, which is
  \<open>wf_map\<close>.
\<close>

record ('a, 'p) NodeAllocationStateSpec =
  AllocatedClaims :: "(string \<times> 'a) list"
  PreparedClaims :: "(string \<times> 'p) list"

datatype NodeAllocationStateStatus = NotReady | Ready

record ('a, 'p) NodeAllocationState =
  Name :: string
  Status :: NodeAllocationStateStatus
  Spec :: "('a, 'p) NodeAllocationStateSpec"


definition exists_key :: "(string \<times> 'v) list \<Rightarrow> string \<Rightarrow> bool" where
  "exists_key m k = (map_of m k \<noteq> None)"

record ListOptions =
  opt_Watch :: bool
  opt_ResourceVersion :: string
  opt_FieldSelector :: string
  opt_TimeoutSeconds :: "int option"

record ('a, 'p) NodeAllocationStateList =
  Items :: "('a, 'p) NodeAllocationState list"
  ListResourceVersion :: string

datatype EventType = Added | Modified | Deleted | Bookmark | Error

text \<open>
  The object of a watch event is a \<^verbatim>\<open>runtime.Object\<close>: the allocation record, or something
  that the type assertion of the watch loop rejects.
\<close>

datatype ('a, 'p) Object = NAS "('a, 'p) NodeAllocationState" | OtherObject

record ('a, 'p) Event =
  event_Type :: EventType
  event_Object :: "('a, 'p) Object"

subsection \<open>Collaborators, the world and the trace of calls\<close>

text \<open>
  Every call that leaves the driver is recorded, in order. \<open>CLock\<close> and \<open>CUnlock\<close> are the
  driver's own mutex. \<open>Go_CleanupStaleStateContinuously\<close> is the \<^verbatim>\<open>go\<close> statement of the
  constructor, \<open>Go_Unprepare uid\<close> marks the goroutine of one cleanup unit,
  \<open>Enter_cleanupStaleState nas\<close> marks the start of one cleanup pass and \<open>Sleep n\<close> is
  \<^verbatim>\<open>time.Sleep\<close> of \<open>n\<close> seconds.
\<close>

datatype ('a, 'p) call =
    CLock
  | CUnlock
  | CGetOrCreate
  | CGet
  | CUpdate "('a, 'p) NodeAllocationStateSpec"
  | CUpdateStatus NodeAllocationStateStatus
  | CList ListOptions
  | CWatch ListOptions
  | CNewDeviceState
  | CStatePrepare string 'a
  | CStateUnprepare string
  | Go_CleanupStaleStateContinuously
  | Go_Unprepare string
  | Enter_cleanupStaleState "('a, 'p) NodeAllocationState"
  | Sleep nat

text \<open>
  The collaborators, over a state \<open>'s\<close> that holds everything outside driver.go: the record
  at the API server, the local mirror \<^verbatim>\<open>d.nascrd\<close> that the client refreshes, and the device
  state. \<open>impl_nascrd\<close> reads the mirror. \<open>impl_zero\<close> is the zero value of the allocation
  details, which a Go map lookup returns for a missing key, and \<open>impl_Steps\<close> is the number
  of attempts of \<^verbatim>\<open>retry.DefaultRetry\<close>.
\<close>

record ('s, 'a, 'p) collaborators =
  impl_GetOrCreate :: "'s \<Rightarrow> error option \<times> 's"
  impl_Get :: "'s \<Rightarrow> error option \<times> 's"
  impl_Update :: "('a, 'p) NodeAllocationStateSpec \<Rightarrow> 's \<Rightarrow> error option \<times> 's"
  impl_UpdateStatus :: "NodeAllocationStateStatus \<Rightarrow> 's \<Rightarrow> error option \<times> 's"
  impl_List :: "ListOptions \<Rightarrow> 's \<Rightarrow> (error + ('a, 'p) NodeAllocationStateList) \<times> 's"
  impl_Watch :: "ListOptions \<Rightarrow> 's \<Rightarrow> (error + ('a, 'p) Event list) \<times> 's"
  impl_NewDeviceState :: "'s \<Rightarrow> error option \<times> 's"
  impl_Prepare :: "string \<Rightarrow> 'a \<Rightarrow> 's \<Rightarrow> (string list \<times> error option) \<times> 's"
  impl_Unprepare :: "string \<Rightarrow> 's \<Rightarrow> error option \<times> 's"
  impl_GetUpdatedSpec :: "'s \<Rightarrow> ('a, 'p) NodeAllocationStateSpec \<Rightarrow> ('a, 'p) NodeAllocationStateSpec"
  impl_GetClaimDevices :: "'s \<Rightarrow> string \<Rightarrow> string list"
  impl_nascrd :: "'s \<Rightarrow> ('a, 'p) NodeAllocationState"
  impl_zero :: 'a
  impl_Steps :: nat

record ('s, 'a, 'p) world =
  ext :: 's
  calls :: "('a, 'p) call list"

definition emit :: "('a, 'p) call \<Rightarrow> ('s, 'a, 'p) world \<Rightarrow> ('s, 'a, 'p) world" where
  "emit c w = w\<lparr>calls := calls w @ [c]\<rparr>"

definition invoke ::
  "('a, 'p) call \<Rightarrow> ('s \<Rightarrow> 'r \<times> 's) \<Rightarrow> ('s, 'a, 'p) world \<Rightarrow> 'r \<times> ('s, 'a, 'p) world" where
  "invoke c f w = (case f (ext w) of (r, s) \<Rightarrow> (r, \<lparr>ext = s, calls = calls w @ [c]\<rparr>))"

definition nasclient_GetOrCreate ::
  "('s, 'a, 'p) collaborators \<Rightarrow> ('s, 'a, 'p) world \<Rightarrow> error option \<times> ('s, 'a, 'p) world" where
  "nasclient_GetOrCreate D = invoke CGetOrCreate (impl_GetOrCreate D)"

definition nasclient_Get ::
  "('s, 'a, 'p) collaborators \<Rightarrow> ('s, 'a, 'p) world \<Rightarrow> error option \<times> ('s, 'a, 'p) world" where
  "nasclient_Get D = invoke CGet (impl_Get D)"

definition nasclient_Update ::
  "('s, 'a, 'p) collaborators \<Rightarrow> ('a, 'p) NodeAllocationStateSpec \<Rightarrow> ('s, 'a, 'p) world
     \<Rightarrow> error option \<times> ('s, 'a, 'p) world" where
  "nasclient_Update D spec = invoke (CUpdate spec) (impl_Update D spec)"

definition nasclient_UpdateStatus ::
  "('s, 'a, 'p) collaborators \<Rightarrow> NodeAllocationStateStatus \<Rightarrow> ('s, 'a, 'p) world
     \<Rightarrow> error option \<times> ('s, 'a, 'p) world" where
  "nasclient_UpdateStatus D st = invoke (CUpdateStatus st) (impl_UpdateStatus D st)"

definition nasclient_List ::
  "('s, 'a, 'p) collaborators \<Rightarrow> ListOptions \<Rightarrow> ('s, 'a, 'p) world
     \<Rightarrow> (error + ('a, 'p) NodeAllocationStateList) \<times> ('s, 'a, 'p) world" where
  "nasclient_List D opts = invoke (CList opts) (impl_List D opts)"

definition nasclient_Watch ::
  "('s, 'a, 'p) collaborators \<Rightarrow> ListOptions \<Rightarrow> ('s, 'a, 'p) world
     \<Rightarrow> (error + ('a, 'p) Event list) \<times> ('s, 'a, 'p) world" where
  "nasclient_Watch D opts = invoke (CWatch opts) (impl_Watch D opts)"

definition NewDeviceState ::
  "('s, 'a, 'p) collaborators \<Rightarrow> ('s, 'a, 'p) world \<Rightarrow> error option \<times> ('s, 'a, 'p) world" where
  "NewDeviceState D = invoke CNewDeviceState (impl_NewDeviceState D)"

definition state_Prepare ::
  "('s, 'a, 'p) collaborators \<Rightarrow> string \<Rightarrow> 'a \<Rightarrow> ('s, 'a, 'p) world
     \<Rightarrow> (string list \<times> error option) \<times> ('s, 'a, 'p) world" where
  "state_Prepare D claimUID allocation =
     invoke (CStatePrepare claimUID allocation) (impl_Prepare D claimUID allocation)"

definition state_Unprepare ::
  "('s, 'a, 'p) collaborators \<Rightarrow> string \<Rightarrow> ('s, 'a, 'p) world \<Rightarrow> error option \<times> ('s, 'a, 'p) world" where
  "state_Unprepare D claimUID = invoke (CStateUnprepare claimUID) (impl_Unprepare D claimUID)"

text \<open>\<^verbatim>\<open>d.state.GetUpdatedSpec(&d.nascrd.Spec)\<close>, read in the current world.\<close>

definition state_GetUpdatedSpec ::
  "('s, 'a, 'p) collaborators \<Rightarrow> ('s, 'a, 'p) world \<Rightarrow> ('a, 'p) NodeAllocationStateSpec" where
  "state_GetUpdatedSpec D w = impl_GetUpdatedSpec D (ext w) (Spec (impl_nascrd D (ext w)))"

text \<open>\<^verbatim>\<open>m[k]\<close> on a Go map: the value, or the zero value when the key is missing.\<close>

definition index_or_zero :: "'v \<Rightarrow> (string \<times> 'v) list \<Rightarrow> string \<Rightarrow> 'v" where
  "index_or_zero z m k = (case map_of m k of None \<Rightarrow> z | Some v \<Rightarrow> v)"

subsection \<open>Conflict retry\<close>

text \<open>
  Modelled from the spec: the bounded conflict retry, "on version-conflict, restart from
  fetch; on any other error, abort", where "after exhaustion the operation fails and the
  error is propagated to the caller". It is \<^verbatim>\<open>retry.RetryOnConflict(backoff, fn)\<close> of the
  client library, which is not in the repository: \<open>fn\<close> runs up to \<open>Steps\<close> times; a nil
  error ends the loop with success, an error that is not a conflict ends it with that error,
  and when the attempts are used up the last conflict error is returned. \<open>lastErr\<close> is the
  variable of that name in the library.
\<close>

fun retry_loop ::
  "nat \<Rightarrow> ('w \<Rightarrow> error option \<times> 'w) \<Rightarrow> error option \<Rightarrow> 'w \<Rightarrow> error option \<times> 'w" where
  "retry_loop 0 fn lastErr w = (lastErr, w)"
| "retry_loop (Suc n) fn lastErr w =
     (case fn w of
        (None, w') \<Rightarrow> (None, w')
      | (Some err, w') \<Rightarrow>
          if IsConflict err then retry_loop n fn (Some err) w' else (Some err, w'))"

definition RetryOnConflict ::
  "nat \<Rightarrow> ('w \<Rightarrow> error option \<times> 'w) \<Rightarrow> 'w \<Rightarrow> error option \<times> 'w" where
  "RetryOnConflict steps fn w = retry_loop steps fn None w"

subsection \<open>The driver's operations\<close>

text \<open>
  The driver value holds three pointers: to the mirror, to the client and to the device
  state. The world holds what they point to, so the value itself carries no data; the
  constructor returns it or \<^verbatim>\<open>nil\<close>.
\<close>

datatype driver = Driver

record NodePrepareResourceRequest =
  ClaimUid :: string

record NodePrepareResourceResponse =
  CdiDevices :: "string list"

datatype NodeUnprepareResourceRequest = NodeUnprepareResourceRequest string

datatype NodeUnprepareResourceResponse = NodeUnprepareResourceResponse

text \<open>
  The function literal that \<^verbatim>\<open>NewDriver\<close> hands to the retry helper. Its state is the
  captured variable \<^verbatim>\<open>d\<close> and the world.
\<close>

definition NewDriver_attempt ::
  "('s, 'a, 'p) collaborators \<Rightarrow> driver option \<times> ('s, 'a, 'p) world
     \<Rightarrow> error option \<times> driver option \<times> ('s, 'a, 'p) world" where
  "NewDriver_attempt D = (\<lambda>(d, w).
     case nasclient_GetOrCreate D w of
       (Some err, w1) \<Rightarrow> (Some err, d, w1)
     | (None, w1) \<Rightarrow>
     (case nasclient_UpdateStatus D NotReady w1 of
       (Some err, w2) \<Rightarrow> (Some err, d, w2)
     | (None, w2) \<Rightarrow>
     (case NewDeviceState D w2 of
       (Some err, w3) \<Rightarrow> (Some err, d, w3)
     | (None, w3) \<Rightarrow>
     (case nasclient_Update D (state_GetUpdatedSpec D w3) w3 of
       (Some err, w4) \<Rightarrow> (Some err, d, w4)
     | (None, w4) \<Rightarrow>
     (case nasclient_UpdateStatus D Ready w4 of
       (Some err, w5) \<Rightarrow> (Some err, d, w5)
     | (None, w5) \<Rightarrow> (None, Some Driver, w5))))))"

definition NewDriver ::
  "('s, 'a, 'p) collaborators \<Rightarrow> ('s, 'a, 'p) world
     \<Rightarrow> (driver option \<times> error option) \<times> ('s, 'a, 'p) world" where
  "NewDriver D w =
     (case RetryOnConflict (impl_Steps D) (NewDriver_attempt D) (None, w) of
        (Some err, d, w') \<Rightarrow> ((None, Some err), w')
      | (None, d, w') \<Rightarrow> ((d, None), emit Go_CleanupStaleStateContinuously w'))"

definition Shutdown_attempt ::
  "('s, 'a, 'p) collaborators \<Rightarrow> ('s, 'a, 'p) world \<Rightarrow> error option \<times> ('s, 'a, 'p) world" where
  "Shutdown_attempt D w =
     (case nasclient_Get D w of
        (Some err, w1) \<Rightarrow> (Some err, w1)
      | (None, w1) \<Rightarrow> nasclient_UpdateStatus D NotReady w1)"

definition Shutdown ::
  "('s, 'a, 'p) collaborators \<Rightarrow> ('s, 'a, 'p) world \<Rightarrow> error option \<times> ('s, 'a, 'p) world" where
  "Shutdown D w = RetryOnConflict (impl_Steps D) (Shutdown_attempt D) w"

definition IsPrepared ::
  "('s, 'a, 'p) collaborators \<Rightarrow> string \<Rightarrow> ('s, 'a, 'p) world
     \<Rightarrow> (bool \<times> string list \<times> error option) \<times> ('s, 'a, 'p) world" where
  "IsPrepared D claimUID w =
     (case nasclient_Get D w of
        (Some err, w1) \<Rightarrow> ((False, [], Some err), w1)
      | (None, w1) \<Rightarrow>
          if exists_key (PreparedClaims (Spec (impl_nascrd D (ext w1)))) claimUID
          then ((True, impl_GetClaimDevices D (ext w1) claimUID, None), w1)
          else ((False, [], None), w1))"

text \<open>
  The function literal of \<^verbatim>\<open>Prepare\<close>; its state is the captured variable
  \<^verbatim>\<open>prepared\<close> and the world.
\<close>

definition Prepare_attempt ::
  "('s, 'a, 'p) collaborators \<Rightarrow> string \<Rightarrow> string list \<times> ('s, 'a, 'p) world
     \<Rightarrow> error option \<times> string list \<times> ('s, 'a, 'p) world" where
  "Prepare_attempt D claimUID = (\<lambda>(prepared, w).
     case nasclient_Get D w of
       (Some err, w1) \<Rightarrow> (Some err, prepared, w1)
     | (None, w1) \<Rightarrow>
     (case state_Prepare D claimUID
             (index_or_zero (impl_zero D) (AllocatedClaims (Spec (impl_nascrd D (ext w1)))) claimUID) w1 of
       ((prepared', Some err), w2) \<Rightarrow> (Some err, prepared', w2)
     | ((prepared', None), w2) \<Rightarrow>
     (case nasclient_Update D (state_GetUpdatedSpec D w2) w2 of
       (Some err, w3) \<Rightarrow> (Some err, prepared', w3)
     | (None, w3) \<Rightarrow> (None, prepared', w3))))"

definition Prepare ::
  "('s, 'a, 'p) collaborators \<Rightarrow> string \<Rightarrow> ('s, 'a, 'p) world
     \<Rightarrow> (string list \<times> error option) \<times> ('s, 'a, 'p) world" where
  "Prepare D claimUID w =
     (case RetryOnConflict (impl_Steps D) (Prepare_attempt D claimUID) ([], w) of
        (Some err, prepared, w') \<Rightarrow> (([], Some err), w')
      | (None, prepared, w') \<Rightarrow> ((prepared, None), w'))"

definition NodePrepareResource ::
  "('s, 'a, 'p) collaborators \<Rightarrow> NodePrepareResourceRequest \<Rightarrow> ('s, 'a, 'p) world
     \<Rightarrow> (NodePrepareResourceResponse option \<times> error option) \<times> ('s, 'a, 'p) world" where
  "NodePrepareResource D req w =
     (case IsPrepared D (ClaimUid req) (emit CLock w) of
        ((isPrepared, prepared, Some err), w1) \<Rightarrow>
          ((None, Some (Wrap ''error checking if claim is already prepared'' err)), emit CUnlock w1)
      | ((isPrepared, prepared, None), w1) \<Rightarrow>
          if isPrepared then ((Some \<lparr>CdiDevices = prepared\<rparr>, None), emit CUnlock w1)
          else
            (case Prepare D (ClaimUid req) w1 of
               ((prepared', Some err), w2) \<Rightarrow>
                 ((None, Some (Wrap (''error preparing devices for claim '' @ ClaimUid req) err)),
                  emit CUnlock w2)
             | ((prepared', None), w2) \<Rightarrow>
                 ((Some \<lparr>CdiDevices = prepared'\<rparr>, None), emit CUnlock w2)))"

definition NodeUnprepareResource ::
  "('s, 'a, 'p) collaborators \<Rightarrow> NodeUnprepareResourceRequest \<Rightarrow> ('s, 'a, 'p) world
     \<Rightarrow> (NodeUnprepareResourceResponse option \<times> error option) \<times> ('s, 'a, 'p) world" where
  "NodeUnprepareResource D req w = ((Some NodeUnprepareResourceResponse, None), w)"

definition Unprepare_attempt ::
  "('s, 'a, 'p) collaborators \<Rightarrow> string \<Rightarrow> ('s, 'a, 'p) world \<Rightarrow> error option \<times> ('s, 'a, 'p) world" where
  "Unprepare_attempt D claimUID w =
     (case nasclient_Get D w of
        (Some err, w1) \<Rightarrow> (Some err, w1)
      | (None, w1) \<Rightarrow>
      (case state_Unprepare D claimUID w1 of
        (Some err, w2) \<Rightarrow> (Some err, w2)
      | (None, w2) \<Rightarrow>
      (case nasclient_Update D (state_GetUpdatedSpec D w2) w2 of
        (Some err, w3) \<Rightarrow> (Some err, w3)
      | (None, w3) \<Rightarrow> (None, w3))))"

definition Unprepare ::
  "('s, 'a, 'p) collaborators \<Rightarrow> string \<Rightarrow> ('s, 'a, 'p) world \<Rightarrow> error option \<times> ('s, 'a, 'p) world" where
  "Unprepare D claimUID w = RetryOnConflict (impl_Steps D) (Unprepare_attempt D claimUID) w"

subsection \<open>The cleanup fan-out\<close>

text \<open>
  A unit of work is one goroutine of the fan-out. \<^verbatim>\<open>cleanupClaimAllocations\<close> spawns one
  for each key of \<^verbatim>\<open>PreparedClaims\<close> that \<^verbatim>\<open>AllocatedClaims\<close> lacks and returns at once; the
  two other categories spawn nothing. The function returns the units it spawned, in the
  order of the map iteration.
\<close>

datatype work = UnprepareClaim string

definition cleanupClaimAllocations :: "('a, 'p) NodeAllocationState \<Rightarrow> work list" where
  "cleanupClaimAllocations nas =
     map UnprepareClaim
       (filter (\<lambda>claimUID. \<not> exists_key (AllocatedClaims (Spec nas)) claimUID)
          (map fst (PreparedClaims (Spec nas))))"

definition cleanupCDIFiles :: "('a, 'p) NodeAllocationState \<Rightarrow> work list" where
  "cleanupCDIFiles nas = []"

definition cleanupMpsControlDaemonArtifacts :: "('a, 'p) NodeAllocationState \<Rightarrow> work list" where
  "cleanupMpsControlDaemonArtifacts nas = []"

text \<open>
  The body of one goroutine: it calls \<^verbatim>\<open>Unprepare\<close> and sends at most one error on the
  channel of its category. The result is the list of errors sent.
\<close>

fun run_unit ::
  "('s, 'a, 'p) collaborators \<Rightarrow> work \<Rightarrow> ('s, 'a, 'p) world \<Rightarrow> error list \<times> ('s, 'a, 'p) world" where
  "run_unit D (UnprepareClaim claimUID) w =
     (case Unprepare D claimUID (emit (Go_Unprepare claimUID) w) of
        (Some err, w1) \<Rightarrow> ([Wrap (''error unpreparing resources for claim '' @ claimUID) err], w1)
      | (None, w1) \<Rightarrow> ([], w1))"

text \<open>
  \<^verbatim>\<open>wg.Wait()\<close>: all units of a category have run when it returns. The units run one after
  the other, in the order they were spawned; since that order is the arbitrary order of the
  map iteration, every order of whole units is covered. Units that interleave inside one
  another are not modelled.
\<close>

fun run_units ::
  "('s, 'a, 'p) collaborators \<Rightarrow> work list \<Rightarrow> ('s, 'a, 'p) world \<Rightarrow> error list \<times> ('s, 'a, 'p) world" where
  "run_units D [] w = ([], w)"
| "run_units D (u # us) w =
     (case run_unit D u w of
        (errs, w1) \<Rightarrow> (case run_units D us w1 of (errs', w2) \<Rightarrow> (errs @ errs', w2)))"

definition cleanupStaleState ::
  "('s, 'a, 'p) collaborators \<Rightarrow> ('a, 'p) NodeAllocationState \<Rightarrow> ('s, 'a, 'p) world
     \<Rightarrow> error option \<times> ('s, 'a, 'p) world" where
  "cleanupStaleState D nas w =
     (case run_units D (cleanupClaimAllocations nas) (emit (Enter_cleanupStaleState nas) w) of
        (caErrors, w1) \<Rightarrow>
     (case run_units D (cleanupCDIFiles nas) w1 of
        (cdiErrors, w2) \<Rightarrow>
     (case run_units D (cleanupMpsControlDaemonArtifacts nas) w2 of
        (mpsErrors, w3) \<Rightarrow>
     (let sumErrors = length caErrors + length cdiErrors + length mpsErrors
      in if sumErrors \<noteq> 0
         then (Some (Failure (''encountered '' @ string_of_nat sumErrors @ '' errors'')), w3)
         else (None, w3)))))"

subsection \<open>The reconciliation loop\<close>

definition CleanupTimeoutSecondsOnError :: nat where
  "CleanupTimeoutSecondsOnError = 5"

definition field_selector :: "('s, 'a, 'p) collaborators \<Rightarrow> ('s, 'a, 'p) world \<Rightarrow> string" where
  "field_selector D w = ''metadata.name='' @ Name (impl_nascrd D (ext w))"

definition cleanupStaleStateOnce ::
  "('s, 'a, 'p) collaborators \<Rightarrow> ('s, 'a, 'p) world
     \<Rightarrow> (string \<times> error option) \<times> ('s, 'a, 'p) world" where
  "cleanupStaleStateOnce D w =
     (let listOptions = \<lparr>opt_Watch = False, opt_ResourceVersion = '''',
                          opt_FieldSelector = field_selector D w, opt_TimeoutSeconds = None\<rparr>
      in case nasclient_List D listOptions w of
           (Inl err, w1) \<Rightarrow> (('''', Some (Wrap ''error listing allocation state'' err)), w1)
         | (Inr list, w1) \<Rightarrow>
             (case Items list of
                [nas] \<Rightarrow>
                  (case cleanupStaleState D nas w1 of
                     (Some err, w2) \<Rightarrow> (('''', Some err), w2)
                   | (None, w2) \<Rightarrow> ((ListResourceVersion list, None), w2))
              | items \<Rightarrow>
                  (('''', Some (Failure (''unexpected number of allocation state objects from list: ''
                                        @ string_of_nat (length items)))), w1)))"

text \<open>
  The loop over \<^verbatim>\<open>watcher.ResultChan()\<close>, on the events the channel delivers before it is
  closed.
\<close>

fun watch_events ::
  "('s, 'a, 'p) collaborators \<Rightarrow> ('a, 'p) Event list \<Rightarrow> ('s, 'a, 'p) world
     \<Rightarrow> error option \<times> ('s, 'a, 'p) world" where
  "watch_events D [] w = (None, w)"
| "watch_events D (event # events) w =
     (if event_Type event \<noteq> Modified then watch_events D events w
      else
        (case event_Object event of
           OtherObject \<Rightarrow> (Some (Failure ''unexpected error decoding object from watcher''), w)
         | NAS nas \<Rightarrow>
             (case cleanupStaleState D nas w of
                (Some err, w1) \<Rightarrow> (Some err, w1)
              | (None, w1) \<Rightarrow> watch_events D events w1)))"

definition cleanupStaleStateContinuously ::
  "('s, 'a, 'p) collaborators \<Rightarrow> string \<Rightarrow> error option \<Rightarrow> ('s, 'a, 'p) world
     \<Rightarrow> error option \<times> ('s, 'a, 'p) world" where
  "cleanupStaleStateContinuously D resourceVersion previousError w =
     (let watchOptions =
            \<lparr>opt_Watch = True, opt_ResourceVersion = resourceVersion,
             opt_FieldSelector = field_selector D w,
             opt_TimeoutSeconds =
               (if previousError \<noteq> None then Some (int CleanupTimeoutSecondsOnError) else None)\<rparr>
      in case nasclient_Watch D watchOptions w of
           (Inl err, w1) \<Rightarrow> (Some (Wrap ''error setting up watch to cleanup allocations'' err), w1)
         | (Inr events, w1) \<Rightarrow> watch_events D events w1)"

text \<open>
  One turn of the endless loop of \<^verbatim>\<open>CleanupStaleStateContinuously\<close>, and the loop cut
  after a number of turns.
\<close>

definition CleanupStaleStateContinuously_turn ::
  "('s, 'a, 'p) collaborators \<Rightarrow> ('s, 'a, 'p) world \<Rightarrow> ('s, 'a, 'p) world" where
  "CleanupStaleStateContinuously_turn D w =
     (case cleanupStaleStateOnce D w of
        ((resourceVersion, err), w1) \<Rightarrow>
          (case cleanupStaleStateContinuously D resourceVersion err w1 of
             (Some err', w2) \<Rightarrow> emit (Sleep CleanupTimeoutSecondsOnError) w2
           | (None, w2) \<Rightarrow> w2))"

fun CleanupStaleStateContinuously ::
  "nat \<Rightarrow> ('s, 'a, 'p) collaborators \<Rightarrow> ('s, 'a, 'p) world \<Rightarrow> ('s, 'a, 'p) world" where
  "CleanupStaleStateContinuously 0 D w = w"
| "CleanupStaleStateContinuously (Suc n) D w =
     CleanupStaleStateContinuously n D (CleanupStaleStateContinuously_turn D w)"


section \<open>Collaborators modelled from the specification\<close>

text \<open>
  The record client and the device state manager, as the specification describes them, over
  a state that holds the record at the API server, the local mirror, the reservations of the
  device state manager, the events that the next watch delivers, and a script of outcomes.
  Every fallible call takes the next outcome of the script: \<open>Some err\<close> makes the call fail
  with \<open>err\<close> and change nothing, \<open>None\<close> (or an empty script) lets it proceed. A concurrent
  writer is not part of the state: the version conflict it would cause is a scripted
  \<open>Conflict\<close>. Allocation details and prepared devices are both lists of device identifiers.
\<close>

type_synonym devices = "string list"

record sys =
  server :: "(devices, devices) NodeAllocationState option"
  version :: nat
  mirror :: "(devices, devices) NodeAllocationState"
  reservations :: "(string \<times> devices) list"
  stream :: "(devices, devices) Event list"
  outcomes :: "error option list"

definition next_outcome :: "sys \<Rightarrow> error option \<times> sys" where
  "next_outcome s = (case outcomes s of [] \<Rightarrow> (None, s) | r # rs \<Rightarrow> (r, s\<lparr>outcomes := rs\<rparr>))"

definition NotFound :: error where
  "NotFound = Failure ''not found''"

text \<open>
  Modelled from the spec: \<^verbatim>\<open>GetOrCreate\<close> of the record client,
  "get-or-create the node's AllocationRecord"; the record is created from the local copy
  when the server has none, and the mirror is the server's record afterwards.
\<close>

definition sim_GetOrCreate :: "sys \<Rightarrow> error option \<times> sys" where
  "sim_GetOrCreate s =
     (case next_outcome s of
        (Some err, s1) \<Rightarrow> (Some err, s1)
      | (None, s1) \<Rightarrow>
          (case server s1 of
             None \<Rightarrow> (None, s1\<lparr>server := Some (mirror s1), version := Suc (version s1)\<rparr>)
           | Some r \<Rightarrow> (None, s1\<lparr>mirror := r\<rparr>)))"

text \<open>
  Modelled from the spec: \<^verbatim>\<open>Get\<close> of the record client, which
  "refreshes local mirror".
\<close>

definition sim_Get :: "sys \<Rightarrow> error option \<times> sys" where
  "sim_Get s =
     (case next_outcome s of
        (Some err, s1) \<Rightarrow> (Some err, s1)
      | (None, s1) \<Rightarrow>
          (case server s1 of
             None \<Rightarrow> (Some NotFound, s1)
           | Some r \<Rightarrow> (None, s1\<lparr>mirror := r\<rparr>)))"

text \<open>
  Modelled from the spec: \<^verbatim>\<open>Update\<close> of the record client, a
  "version-checked write" of the given spec that "fails with a conflict-kind error on stale
  version" (scripted here) and advances the version when it succeeds.
\<close>

definition sim_Update :: "(devices, devices) NodeAllocationStateSpec \<Rightarrow> sys \<Rightarrow> error option \<times> sys" where
  "sim_Update spec s =
     (case next_outcome s of
        (Some err, s1) \<Rightarrow> (Some err, s1)
      | (None, s1) \<Rightarrow>
          (case server s1 of
             None \<Rightarrow> (Some NotFound, s1)
           | Some r \<Rightarrow>
               (None, s1\<lparr>server := Some ((mirror s1)\<lparr>Spec := spec\<rparr>),
                         mirror := (mirror s1)\<lparr>Spec := spec\<rparr>,
                         version := Suc (version s1)\<rparr>)))"

text \<open>
  Modelled from the spec: \<^verbatim>\<open>UpdateStatus\<close> of the record client,
  which marks the record \<open>NotReady\<close> or \<open>Ready\<close>.
\<close>

definition sim_UpdateStatus :: "NodeAllocationStateStatus \<Rightarrow> sys \<Rightarrow> error option \<times> sys" where
  "sim_UpdateStatus st s =
     (case next_outcome s of
        (Some err, s1) \<Rightarrow> (Some err, s1)
      | (None, s1) \<Rightarrow>
          (case server s1 of
             None \<Rightarrow> (Some NotFound, s1)
           | Some r \<Rightarrow>
               (None, s1\<lparr>server := Some ((mirror s1)\<lparr>Status := st\<rparr>),
                         mirror := (mirror s1)\<lparr>Status := st\<rparr>,
                         version := Suc (version s1)\<rparr>)))"

text \<open>
  Modelled from the spec: \<^verbatim>\<open>List(ctx, filter) -> (items, resourceVersion,
  error)\<close>; the items are the records whose name the field selector names, the token
  is the version.
\<close>

definition sim_List ::
  "ListOptions \<Rightarrow> sys \<Rightarrow> (error + (devices, devices) NodeAllocationStateList) \<times> sys" where
  "sim_List opts s =
     (case next_outcome s of
        (Some err, s1) \<Rightarrow> (Inl err, s1)
      | (None, s1) \<Rightarrow>
          (Inr \<lparr>Items = (case server s1 of
                           None \<Rightarrow> []
                         | Some r \<Rightarrow>
                             if opt_FieldSelector opts = ''metadata.name='' @ Name r then [r] else []),
                ListResourceVersion = string_of_nat (version s1)\<rparr>, s1))"

text \<open>
  Modelled from the spec: \<^verbatim>\<open>Watch(ctx, options) -> stream of
  events\<close>; the stream is the list of events waiting in the state.
\<close>

definition sim_Watch :: "ListOptions \<Rightarrow> sys \<Rightarrow> (error + (devices, devices) Event list) \<times> sys" where
  "sim_Watch opts s =
     (case next_outcome s of
        (Some err, s1) \<Rightarrow> (Inl err, s1)
      | (None, s1) \<Rightarrow> (Inr (stream s1), s1\<lparr>stream := []\<rparr>))"

text \<open>
  Modelled from the spec: the initialisation of the device state manager, which "must
  reconstruct any already-reserved devices from PreparedClaims".
\<close>

definition sim_NewDeviceState :: "sys \<Rightarrow> error option \<times> sys" where
  "sim_NewDeviceState s =
     (case next_outcome s of
        (Some err, s1) \<Rightarrow> (Some err, s1)
      | (None, s1) \<Rightarrow> (None, s1\<lparr>reservations := PreparedClaims (Spec (mirror s1))\<rparr>))"

text \<open>
  Modelled from the spec: \<^verbatim>\<open>Prepare(ctx, claimUID, allocationDetails) ->
  (deviceIDs, error)\<close> of the device state manager; it reserves the devices of the
  allocation details for the claim and fails on "missing/invalid allocation details".
\<close>

definition sim_Prepare :: "string \<Rightarrow> devices \<Rightarrow> sys \<Rightarrow> (string list \<times> error option) \<times> sys" where
  "sim_Prepare claimUID allocation s =
     (case next_outcome s of
        (Some err, s1) \<Rightarrow> (([], Some err), s1)
      | (None, s1) \<Rightarrow>
          if allocation = [] then (([], Some (Failure ''missing allocation details'')), s1)
          else ((allocation, None),
                s1\<lparr>reservations := AList.update claimUID allocation (reservations s1)\<rparr>))"

text \<open>
  Modelled from the spec: \<^verbatim>\<open>Unprepare(ctx, claimUID) -> error\<close> of
  the device state manager, a release that is a no-op for a claim that is not prepared.
\<close>

definition sim_Unprepare :: "string \<Rightarrow> sys \<Rightarrow> error option \<times> sys" where
  "sim_Unprepare claimUID s =
     (case next_outcome s of
        (Some err, s1) \<Rightarrow> (Some err, s1)
      | (None, s1) \<Rightarrow> (None, s1\<lparr>reservations := AList.delete claimUID (reservations s1)\<rparr>))"

text \<open>
  Modelled from the spec: \<^verbatim>\<open>GetUpdatedSpec(baseSpec) -> spec\<close>, which
  "projects in-memory reservations back into the record's desired-state shape".
\<close>

definition sim_GetUpdatedSpec ::
  "sys \<Rightarrow> (devices, devices) NodeAllocationStateSpec \<Rightarrow> (devices, devices) NodeAllocationStateSpec" where
  "sim_GetUpdatedSpec s base = base\<lparr>PreparedClaims := reservations s\<rparr>"

text \<open>
  Modelled from the spec: \<^verbatim>\<open>GetClaimDevices(claimUID) -> deviceIDs\<close>,
  a "pure local lookup, no error path".
\<close>

definition sim_GetClaimDevices :: "sys \<Rightarrow> string \<Rightarrow> string list" where
  "sim_GetClaimDevices s claimUID =
     (case map_of (reservations s) claimUID of None \<Rightarrow> [] | Some devs \<Rightarrow> devs)"

text \<open>
  Modelled from the spec: the "fixed retry budget"; five attempts is the default of the
  client library.
\<close>

definition DefaultRetry_Steps :: nat where
  "DefaultRetry_Steps = 5"

definition Sim :: "(sys, devices, devices) collaborators" where
  "Sim = \<lparr>impl_GetOrCreate = sim_GetOrCreate, impl_Get = sim_Get, impl_Update = sim_Update,
          impl_UpdateStatus = sim_UpdateStatus, impl_List = sim_List, impl_Watch = sim_Watch,
          impl_NewDeviceState = sim_NewDeviceState, impl_Prepare = sim_Prepare,
          impl_Unprepare = sim_Unprepare, impl_GetUpdatedSpec = sim_GetUpdatedSpec,
          impl_GetClaimDevices = sim_GetClaimDevices, impl_nascrd = mirror,
          impl_zero = [], impl_Steps = DefaultRetry_Steps\<rparr>"

section \<open>Notions used by the statements\<close>

text \<open>The calls made between a world and a later one.\<close>

definition made :: "('s, 'a, 'p) world \<Rightarrow> ('s, 'a, 'p) world \<Rightarrow> ('a, 'p) call list" where
  "made w w' = drop (length (calls w)) (calls w')"

text \<open>The later world has the calls of the earlier one, followed by calls of the set \<open>A\<close>.\<close>

definition extends_by ::
  "('a, 'p) call set \<Rightarrow> ('s, 'a, 'p) world \<Rightarrow> ('s, 'a, 'p) world \<Rightarrow> bool" where
  "extends_by A w w' = (\<exists>evs. calls w' = calls w @ evs \<and> set evs \<subseteq> A)"

text \<open>
  What each unit of a list got from \<^verbatim>\<open>Unprepare\<close>, the units running as \<open>run_units\<close> runs
  them, and the number of units that got an error.
\<close>

fun unit_outcomes ::
  "('s, 'a, 'p) collaborators \<Rightarrow> work list \<Rightarrow> ('s, 'a, 'p) world \<Rightarrow> (string \<times> error option) list" where
  "unit_outcomes D [] w = []"
| "unit_outcomes D (UnprepareClaim claimUID # us) w =
     (case Unprepare D claimUID (emit (Go_Unprepare claimUID) w) of
        (r, w1) \<Rightarrow> (claimUID, r) # unit_outcomes D us w1)"

definition failed :: "(string \<times> error option) list \<Rightarrow> nat" where
  "failed rs = length (filter (\<lambda>r. snd r \<noteq> None) rs)"

subsection \<open>Concrete worlds\<close>

text \<open>
  A node whose record allocates claim A and has it prepared; the local mirror is stale.
\<close>

definition w_idle :: "(sys, devices, devices) world" where
  "w_idle =
     \<lparr>ext = \<lparr>server = Some \<lparr>Name = ''node1'', Status = Ready,
                             Spec = \<lparr>AllocatedClaims = [(''A'', [''gpu-0''])],
                                     PreparedClaims = [(''A'', [''gpu-0''])]\<rparr>\<rparr>,
             version = 7,
             mirror = \<lparr>Name = ''node1'', Status = Ready,
                        Spec = \<lparr>AllocatedClaims = [], PreparedClaims = []\<rparr>\<rparr>,
             reservations = [(''A'', [''gpu-0''])], stream = [], outcomes = []\<rparr>,
      calls = []\<rparr>"

text \<open>
  A snapshot in which claims B and C are prepared and no longer allocated, and a node in that
  state where the release of B by the device state manager is scripted to fail.
\<close>

definition nas_orphans :: "(devices, devices) NodeAllocationState" where
  "nas_orphans =
     \<lparr>Name = ''node1'', Status = Ready,
      Spec = \<lparr>AllocatedClaims = [(''A'', [''gpu-0''])],
              PreparedClaims = [(''A'', [''gpu-0'']), (''B'', [''gpu-1'']), (''C'', [''gpu-2''])]\<rparr>\<rparr>"

definition w_orphans :: "(sys, devices, devices) world" where
  "w_orphans =
     \<lparr>ext = \<lparr>server = Some nas_orphans, version = 7, mirror = nas_orphans,
             reservations = [(''A'', [''gpu-0'']), (''B'', [''gpu-1'']), (''C'', [''gpu-2''])],
             stream = [], outcomes = [None, Some (Failure ''device busy'')]\<rparr>,
      calls = []\<rparr>"

text \<open>The calls that the units of a cleanup pass can make.\<close>

definition unit_calls :: "('a, 'p) call set" where
  "unit_calls = {CGet} \<union> range CStateUnprepare \<union> range CUpdate \<union> range Go_Unprepare"



subsection \<open>The steps of construction\<close>

text \<open>
  The five steps of construction in the words of the specification: get-or-create, mark
  NotReady, initialise the device state, write back its projected spec, mark Ready; and a
  sequence of steps that stops at the first error.
\<close>

definition construction_steps ::
  "('s, 'a, 'p) collaborators
     \<Rightarrow> (('s, 'a, 'p) world \<Rightarrow> error option \<times> ('s, 'a, 'p) world) list" where
  "construction_steps D =
     [nasclient_GetOrCreate D,
      nasclient_UpdateStatus D NotReady,
      NewDeviceState D,
      (\<lambda>w. nasclient_Update D (state_GetUpdatedSpec D w) w),
      nasclient_UpdateStatus D Ready]"

fun run_steps :: "('w \<Rightarrow> error option \<times> 'w) list \<Rightarrow> 'w \<Rightarrow> error option \<times> 'w" where
  "run_steps [] w = (None, w)"
| "run_steps (f # fs) w =
     (case f w of (Some err, w1) \<Rightarrow> (Some err, w1) | (None, w1) \<Rightarrow> run_steps fs w1)"

definition construction_calls :: "('a, 'p) call set" where
  "construction_calls =
     {CGetOrCreate, CNewDeviceState} \<union> range CUpdateStatus \<union> range CUpdate"

text \<open>A node at its first start: the server has no record yet; the script is a parameter.\<close>

definition w_fresh :: "error option list \<Rightarrow> (sys, devices, devices) world" where
  "w_fresh script =
     \<lparr>ext = \<lparr>server = None, version = 0,
             mirror = \<lparr>Name = ''node1'', Status = NotReady,
                        Spec = \<lparr>AllocatedClaims = [], PreparedClaims = []\<rparr>\<rparr>,
             reservations = [], stream = [], outcomes = script\<rparr>,
      calls = []\<rparr>"

definition node1 :: "NodeAllocationStateStatus \<Rightarrow> (devices, devices) NodeAllocationState" where
  "node1 st = \<lparr>Name = ''node1'', Status = st,
               Spec = \<lparr>AllocatedClaims = [], PreparedClaims = []\<rparr>\<rparr>"

subsection \<open>The options of the list and of the watch\<close>






subsection \<open>Notions for the modelled collaborators\<close>

text \<open>
  The allocation details that \<^verbatim>\<open>Prepare\<close> hands to the device state manager for a claim,
  read from a record; and the state in which a claim is in \<^verbatim>\<open>PreparedClaims\<close> of the record
  at the server and the device state manager serves the given devices for it.
\<close>

definition allocation_of ::
  "(devices, devices) NodeAllocationState \<Rightarrow> string \<Rightarrow> devices" where
  "allocation_of rec uid = index_or_zero [] (AllocatedClaims (Spec rec)) uid"


text \<open>
  A node whose record allocates claims A and B and has only A prepared; the script is a
  parameter.
\<close>

definition nas_alloc :: "(devices, devices) NodeAllocationState" where
  "nas_alloc =
     \<lparr>Name = ''node1'', Status = Ready,
      Spec = \<lparr>AllocatedClaims = [(''A'', [''gpu-0'']), (''B'', [''gpu-1''])],
              PreparedClaims = [(''A'', [''gpu-0''])]\<rparr>\<rparr>"

definition w_alloc :: "error option list \<Rightarrow> (sys, devices, devices) world" where
  "w_alloc script =
     \<lparr>ext = \<lparr>server = Some nas_alloc, version = 7, mirror = nas_alloc,
             reservations = [(''A'', [''gpu-0''])], stream = [], outcomes = script\<rparr>,
      calls = []\<rparr>"


text \<open>
  The node of \<open>w_fresh\<close> once its record exists, with the version, the status and the calls
  made so far, and the script used up.
\<close>

definition w_started ::
  "nat \<Rightarrow> NodeAllocationStateStatus \<Rightarrow> (devices, devices) call list
     \<Rightarrow> (sys, devices, devices) world" where
  "w_started v st cs =
     \<lparr>ext = \<lparr>server = Some (node1 st), version = v, mirror = node1 st,
             reservations = [], stream = [], outcomes = []\<rparr>,
      calls = cs\<rparr>"



section \<open>Properties\<close>

subsection \<open>Evaluation on concrete worlds\<close>

lemma string_of_nat_1: "string_of_nat (Suc 0) = ''1''"
  by (simp add: string_of_nat.simps digit_def)


lemma DefaultRetry_Steps_Suc: "DefaultRetry_Steps = Suc (Suc (Suc (Suc (Suc 0))))"
  by (simp add: DefaultRetry_Steps_def eval_nat_numeral)

lemmas run_defs = cleanupStaleState_def cleanupClaimAllocations_def cleanupCDIFiles_def
  cleanupMpsControlDaemonArtifacts_def Unprepare_def Unprepare_attempt_def RetryOnConflict_def
  nasclient_Get_def nasclient_Update_def state_Unprepare_def state_GetUpdatedSpec_def
  invoke_def emit_def exists_key_def

lemmas sim_run_defs = Sim_def sim_Get_def sim_GetOrCreate_def sim_Update_def
  sim_UpdateStatus_def sim_List_def sim_Watch_def sim_NewDeviceState_def sim_Prepare_def
  sim_Unprepare_def sim_GetUpdatedSpec_def sim_GetClaimDevices_def next_outcome_def
  NotFound_def DefaultRetry_Steps_Suc

subsection \<open>The trace only grows\<close>

lemma extends_by_refl: "extends_by A w w"
  by (simp add: extends_by_def)

lemma extends_by_trans: "extends_by A w w1 \<Longrightarrow> extends_by A w1 w2 \<Longrightarrow> extends_by A w w2"
  by (auto simp: extends_by_def)

lemma extends_by_emit: "c \<in> A \<Longrightarrow> extends_by A w (emit c w)"
  by (simp add: extends_by_def emit_def)

lemma extends_by_made: "extends_by A w w' \<Longrightarrow> set (made w w') \<subseteq> A"
  by (auto simp: extends_by_def made_def)

lemma retry_loop_extends:
  assumes "\<And>x. extends_by A (proj x) (proj (snd (fn x)))"
  shows "extends_by A (proj x) (proj (snd (retry_loop n fn e x)))"
proof (induction n arbitrary: x e)
  case 0
  show ?case by (simp add: extends_by_refl)
next
  case (Suc n)
  show ?case
  proof (cases "fn x")
    case (Pair r x')
    have step: "extends_by A (proj x) (proj x')" using assms [of x] Pair by simp
    show ?thesis
    proof (cases r)
      case None
      with Pair step show ?thesis by simp
    next
      case (Some err)
      show ?thesis
      proof (cases "IsConflict err")
        case True
        have "extends_by A (proj x') (proj (snd (retry_loop n fn (Some err) x')))" by (rule Suc.IH)
        with step have "extends_by A (proj x) (proj (snd (retry_loop n fn (Some err) x')))"
          by (rule extends_by_trans)
        with Pair Some True show ?thesis by simp
      next
        case False
        with Pair Some step show ?thesis by simp
      qed
    qed
  qed
qed

lemma retry_loop_Suc_extends:
  assumes "\<And>x. extends_by UNIV (proj x) (proj (snd (fn x)))"
  shows "extends_by UNIV (proj (snd (fn x))) (proj (snd (retry_loop (Suc n) fn e x)))"
proof (cases "fn x")
  case (Pair r x')
  have "extends_by UNIV (proj x') (proj (snd (retry_loop n fn r x')))"
    using assms by (rule retry_loop_extends)
  with Pair show ?thesis
    by (auto simp: extends_by_refl split: option.splits)
qed

lemma Unprepare_attempt_extends:
  "{CGet, CStateUnprepare uid} \<union> range CUpdate \<subseteq> A \<Longrightarrow>
   extends_by A w (snd (Unprepare_attempt D uid w))"
  unfolding Unprepare_attempt_def nasclient_Get_def state_Unprepare_def nasclient_Update_def
    extends_by_def invoke_def
  by (auto split: prod.splits option.splits)

lemma Prepare_attempt_extends:
  "{CGet} \<union> range (CStatePrepare uid) \<union> range CUpdate \<subseteq> A \<Longrightarrow>
   extends_by A (snd x) (snd (snd (Prepare_attempt D uid x)))"
  unfolding Prepare_attempt_def nasclient_Get_def state_Prepare_def nasclient_Update_def
    extends_by_def invoke_def
  by (auto split: prod.splits option.splits)

lemma Unprepare_extends:
  "{CGet, CStateUnprepare uid} \<union> range CUpdate \<subseteq> A \<Longrightarrow>
   extends_by A w (snd (Unprepare D uid w))"
  unfolding Unprepare_def RetryOnConflict_def
  using retry_loop_extends [where proj = "\<lambda>w. w" and fn = "Unprepare_attempt D uid" and A = A]
  by (simp add: Unprepare_attempt_extends)

lemma Prepare_extends:
  assumes "{CGet} \<union> range (CStatePrepare uid) \<union> range CUpdate \<subseteq> A"
  shows "extends_by A w (snd (Prepare D uid w))"
proof -
  have "extends_by A (snd ([], w))
          (snd (snd (retry_loop (impl_Steps D) (Prepare_attempt D uid) None ([], w))))"
    using retry_loop_extends [where proj = snd and fn = "Prepare_attempt D uid" and A = A
        and x = "([], w)" and n = "impl_Steps D" and e = None]
    by (simp add: Prepare_attempt_extends [OF assms])
  then show ?thesis
    unfolding Prepare_def RetryOnConflict_def by (auto split: prod.splits option.splits)
qed

subsection \<open>The unprepare request\<close>

text \<open>
  Claim C7. For every unprepare request, \<^verbatim>\<open>NodeUnprepareResource\<close> returns the empty
  response and no error, and the world after it is the world before it: no call is made, and
  nothing of the record, the device state or the driver changes.
\<close>

theorem C7_NodeUnprepareResource_is_a_no_op:
  "NodeUnprepareResource D req w = ((Some NodeUnprepareResourceResponse, None), w)"
  by (simp add: NodeUnprepareResource_def)

subsection \<open>The preparedness check\<close>

text \<open>
  Claim C9. When the refresh of the record succeeds and the refreshed record has no
  \<^verbatim>\<open>PreparedClaims\<close> entry for \<open>x\<close>, \<^verbatim>\<open>IsPrepared\<close> answers not prepared, with no device
  list and no error; the refresh is the only call it makes, and the state it leaves is the
  state the refresh left.
\<close>

theorem C9_IsPrepared_absent:
  assumes "impl_Get D (ext w) = (None, s)"
      and "\<not> exists_key (PreparedClaims (Spec (impl_nascrd D s))) x"
  shows "IsPrepared D x w = ((False, [], None), \<lparr>ext = s, calls = calls w @ [CGet]\<rparr>)"
  using assms by (simp add: IsPrepared_def nasclient_Get_def invoke_def)

text \<open>
  On the node of \<open>w_idle\<close>, which has claim A only: the check of claim x refreshes the mirror
  and changes neither the record at the server nor the reservations.
\<close>

theorem C9_IsPrepared_absent_witness:
  "impl_Get Sim (ext w_idle) = (None, (ext w_idle)\<lparr>mirror := the (server (ext w_idle))\<rparr>)
   \<and> \<not> exists_key (PreparedClaims (Spec (impl_nascrd Sim
          ((ext w_idle)\<lparr>mirror := the (server (ext w_idle))\<rparr>)))) ''x''
   \<and> IsPrepared Sim ''x'' w_idle =
       ((False, [], None),
        \<lparr>ext = (ext w_idle)\<lparr>mirror := the (server (ext w_idle))\<rparr>, calls = [CGet]\<rparr>)
   \<and> server (ext (snd (IsPrepared Sim ''x'' w_idle))) = server (ext w_idle)
   \<and> reservations (ext (snd (IsPrepared Sim ''x'' w_idle))) = reservations (ext w_idle)"
proof -
  let ?s = "(ext w_idle)\<lparr>mirror := the (server (ext w_idle))\<rparr>"
  have g: "impl_Get Sim (ext w_idle) = (None, ?s)"
    by (simp add: sim_run_defs w_idle_def)
  have n: "\<not> exists_key (PreparedClaims (Spec (impl_nascrd Sim ?s))) ''x''"
    by (simp add: sim_run_defs w_idle_def exists_key_def)
  from C9_IsPrepared_absent [OF g n] g n show ?thesis by (simp add: w_idle_def)
qed

subsection \<open>Prepare and the allocation details\<close>

lemma Prepare_attempt_first_calls:
  assumes "impl_Get D (ext w) = (None, s)"
  shows "\<exists>rest. calls (snd (snd (Prepare_attempt D uid (p, w)))) =
           calls w @ [CGet, CStatePrepare uid
              (index_or_zero (impl_zero D) (AllocatedClaims (Spec (impl_nascrd D s))) uid)] @ rest"
  using assms
  unfolding Prepare_attempt_def nasclient_Get_def state_Prepare_def nasclient_Update_def invoke_def
  by (auto split: prod.splits option.splits)

text \<open>
  Claim C10. \<^verbatim>\<open>Prepare\<close> does not look the claim up in \<^verbatim>\<open>AllocatedClaims\<close> before it calls
  the device state manager: when the refresh succeeds and the refreshed record has no
  \<^verbatim>\<open>AllocatedClaims\<close> entry for the claim, the two first calls of \<^verbatim>\<open>Prepare\<close> are the
  refresh and the manager's Prepare for that claim with the zero value of the allocation
  details.
\<close>

theorem C10_Prepare_passes_zero_allocation:
  assumes steps: "0 < impl_Steps D"
      and get: "impl_Get D (ext w) = (None, s)"
      and absent: "\<not> exists_key (AllocatedClaims (Spec (impl_nascrd D s))) claimUID"
  shows "take 2 (made w (snd (Prepare D claimUID w))) =
           [CGet, CStatePrepare claimUID (impl_zero D)]"
proof -
  obtain n where n: "impl_Steps D = Suc n" using steps by (cases "impl_Steps D") auto
  let ?fn = "Prepare_attempt D claimUID"
  have zero: "index_or_zero (impl_zero D) (AllocatedClaims (Spec (impl_nascrd D s))) claimUID
                = impl_zero D"
    using absent by (simp add: index_or_zero_def exists_key_def)
  obtain rest where first: "calls (snd (snd (?fn ([], w)))) =
      calls w @ [CGet, CStatePrepare claimUID (impl_zero D)] @ rest"
    using Prepare_attempt_first_calls [OF get, of claimUID "[]"] zero by auto
  have "extends_by UNIV (snd (snd (?fn ([], w))))
          (snd (snd (retry_loop (Suc n) ?fn None ([], w))))"
    using retry_loop_Suc_extends [where proj = snd and fn = ?fn and x = "([], w)"
        and n = n and e = None]
    by (simp add: Prepare_attempt_extends)
  then obtain more where "calls (snd (snd (retry_loop (Suc n) ?fn None ([], w)))) =
      calls (snd (snd (?fn ([], w)))) @ more"
    by (auto simp: extends_by_def)
  with first have "calls (snd (snd (retry_loop (Suc n) ?fn None ([], w)))) =
      calls w @ [CGet, CStatePrepare claimUID (impl_zero D)] @ rest @ more" by simp
  moreover have "snd (Prepare D claimUID w) = snd (snd (retry_loop (Suc n) ?fn None ([], w)))"
    by (simp add: Prepare_def RetryOnConflict_def n split: prod.splits option.splits)
  ultimately show ?thesis by (simp add: made_def)
qed

text \<open>
  On the node of \<open>w_idle\<close>, claim B has no allocation details: the manager is called with the
  empty list, which is the zero value there.
\<close>

theorem C10_Prepare_passes_zero_allocation_witness:
  "0 < impl_Steps Sim
   \<and> impl_Get Sim (ext w_idle) = (None, (ext w_idle)\<lparr>mirror := the (server (ext w_idle))\<rparr>)
   \<and> \<not> exists_key (AllocatedClaims (Spec (impl_nascrd Sim
          ((ext w_idle)\<lparr>mirror := the (server (ext w_idle))\<rparr>)))) ''B''
   \<and> take 2 (made w_idle (snd (Prepare Sim ''B'' w_idle))) = [CGet, CStatePrepare ''B'' []]"
proof -
  let ?s = "(ext w_idle)\<lparr>mirror := the (server (ext w_idle))\<rparr>"
  have p: "0 < impl_Steps Sim" by (simp add: sim_run_defs)
  have g: "impl_Get Sim (ext w_idle) = (None, ?s)"
    by (simp add: sim_run_defs w_idle_def)
  have n: "\<not> exists_key (AllocatedClaims (Spec (impl_nascrd Sim ?s))) ''B''"
    by (simp add: sim_run_defs w_idle_def exists_key_def)
  have z: "impl_zero Sim = []" by (simp add: Sim_def)
  from C10_Prepare_passes_zero_allocation [OF p g n] p g n z show ?thesis by simp
qed

subsection \<open>One cleanup pass: the aggregate error\<close>

lemma run_units_failed: "length (fst (run_units D us w)) = failed (unit_outcomes D us w)"
proof (induction us arbitrary: w)
  case Nil
  show ?case by (simp add: failed_def)
next
  case (Cons u us)
  obtain uid where u: "u = UnprepareClaim uid" by (cases u)
  obtain r w1 where r: "Unprepare D uid (emit (Go_Unprepare uid) w) = (r, w1)"
    by (cases "Unprepare D uid (emit (Go_Unprepare uid) w)")
  obtain errs w2 where rest: "run_units D us w1 = (errs, w2)" by (cases "run_units D us w1")
  have "length errs = failed (unit_outcomes D us w1)" using Cons.IH [of w1] rest by simp
  then show ?case
    by (cases r) (simp_all add: u r rest failed_def)
qed

lemma unit_outcomes_units: "map (UnprepareClaim \<circ> fst) (unit_outcomes D us w) = us"
proof (induction us arbitrary: w)
  case Nil
  show ?case by simp
next
  case (Cons u us)
  obtain uid where u: "u = UnprepareClaim uid" by (cases u)
  show ?case using Cons.IH by (simp add: u split: prod.splits)
qed

text \<open>
  Claim C3. A cleanup pass returns when all units of the three categories have run: every
  spawned unit has an outcome, and the world the pass returns is the world after the last
  unit. With \<open>n\<close> the number of units that reported an error, the pass returns no error when
  \<open>n = 0\<close> and otherwise the single error "encountered n errors".
\<close>

theorem C3_cleanupStaleState_aggregates:
  "fst (cleanupStaleState D nas w) =
     (let units = cleanupClaimAllocations nas @ cleanupCDIFiles nas
                    @ cleanupMpsControlDaemonArtifacts nas;
          n = failed (unit_outcomes D units (emit (Enter_cleanupStaleState nas) w))
      in if n = 0 then None
         else Some (Failure (''encountered '' @ string_of_nat n @ '' errors'')))
   \<and> snd (cleanupStaleState D nas w) =
       snd (run_units D (cleanupClaimAllocations nas @ cleanupCDIFiles nas
                          @ cleanupMpsControlDaemonArtifacts nas)
              (emit (Enter_cleanupStaleState nas) w))
   \<and> map (UnprepareClaim \<circ> fst)
         (unit_outcomes D (cleanupClaimAllocations nas @ cleanupCDIFiles nas
                          @ cleanupMpsControlDaemonArtifacts nas)
              (emit (Enter_cleanupStaleState nas) w)) =
       cleanupClaimAllocations nas @ cleanupCDIFiles nas @ cleanupMpsControlDaemonArtifacts nas"
proof -
  let ?w0 = "emit (Enter_cleanupStaleState nas) w"
  let ?us = "cleanupClaimAllocations nas"
  obtain errs w1 where r: "run_units D ?us ?w0 = (errs, w1)" by (cases "run_units D ?us ?w0")
  have len: "length errs = failed (unit_outcomes D ?us ?w0)"
    using run_units_failed [of D ?us ?w0] r by simp
  show ?thesis
    by (simp add: cleanupStaleState_def cleanupCDIFiles_def cleanupMpsControlDaemonArtifacts_def
        r len [symmetric] unit_outcomes_units Let_def)
qed

text \<open>
  On the node of \<open>w_orphans\<close> the unit of claim B fails and the unit of claim C succeeds: the
  outcomes are those two, the pass reports one error, and C is released while B is not.
\<close>

theorem C3_cleanupStaleState_aggregates_witness:
  "unit_outcomes Sim (cleanupClaimAllocations nas_orphans @ cleanupCDIFiles nas_orphans
                        @ cleanupMpsControlDaemonArtifacts nas_orphans)
       (emit (Enter_cleanupStaleState nas_orphans) w_orphans) =
     [(''B'', Some (Failure ''device busy'')), (''C'', None)]
   \<and> fst (cleanupStaleState Sim nas_orphans w_orphans) =
       Some (Failure ''encountered 1 errors'')
   \<and> reservations (ext (snd (cleanupStaleState Sim nas_orphans w_orphans))) =
       [(''A'', [''gpu-0'']), (''B'', [''gpu-1''])]"
proof -
  have o: "unit_outcomes Sim (cleanupClaimAllocations nas_orphans @ cleanupCDIFiles nas_orphans
                        @ cleanupMpsControlDaemonArtifacts nas_orphans)
       (emit (Enter_cleanupStaleState nas_orphans) w_orphans) =
     [(''B'', Some (Failure ''device busy'')), (''C'', None)]"
    by (simp add: run_defs sim_run_defs w_orphans_def nas_orphans_def)
  have r: "reservations (ext (snd (cleanupStaleState Sim nas_orphans w_orphans))) =
       [(''A'', [''gpu-0'']), (''B'', [''gpu-1''])]"
    by (simp add: run_defs sim_run_defs w_orphans_def nas_orphans_def string_of_nat_1)
  from C3_cleanupStaleState_aggregates [of Sim nas_orphans w_orphans] o r
  show ?thesis by (simp add: failed_def string_of_nat_1)
qed

subsection \<open>The driver's lock\<close>




lemma run_unit_extends: "extends_by unit_calls w (snd (run_unit D u w))"
proof (cases u)
  case (UnprepareClaim uid)
  have "extends_by unit_calls w (emit (Go_Unprepare uid) w)"
    by (rule extends_by_emit) (simp add: unit_calls_def)
  moreover have "extends_by unit_calls (emit (Go_Unprepare uid) w)
                   (snd (Unprepare D uid (emit (Go_Unprepare uid) w)))"
    by (rule Unprepare_extends) (auto simp: unit_calls_def)
  ultimately have "extends_by unit_calls w (snd (Unprepare D uid (emit (Go_Unprepare uid) w)))"
    by (rule extends_by_trans)
  then show ?thesis
    by (auto simp: UnprepareClaim split: prod.splits option.splits)
qed

lemma run_units_extends: "extends_by unit_calls w (snd (run_units D us w))"
proof (induction us arbitrary: w)
  case Nil
  show ?case by (simp add: extends_by_refl)
next
  case (Cons u us)
  obtain errs w1 where u: "run_unit D u w = (errs, w1)" by (cases "run_unit D u w")
  have "extends_by unit_calls w w1" using run_unit_extends [of w D u] u by simp
  moreover have "extends_by unit_calls w1 (snd (run_units D us w1))" by (rule Cons.IH)
  ultimately have "extends_by unit_calls w (snd (run_units D us w1))" by (rule extends_by_trans)
  then show ?case by (auto simp: u split: prod.splits)
qed

lemma cleanupStaleState_calls:
  "\<exists>evs. calls (snd (cleanupStaleState D nas w)) = calls w @ Enter_cleanupStaleState nas # evs
         \<and> set evs \<subseteq> unit_calls"
proof -
  let ?w0 = "emit (Enter_cleanupStaleState nas) w"
  from run_units_extends [of ?w0 D "cleanupClaimAllocations nas"]
  obtain evs where "calls (snd (run_units D (cleanupClaimAllocations nas) ?w0)) = calls ?w0 @ evs"
    "set evs \<subseteq> unit_calls" by (auto simp: extends_by_def)
  then show ?thesis
    by (auto simp: cleanupStaleState_def cleanupCDIFiles_def cleanupMpsControlDaemonArtifacts_def
        Let_def emit_def split: prod.splits)
qed


text \<open>
  Claim C5 says that every \<^verbatim>\<open>Unprepare\<close> of the cleanup fan-out takes the driver's lock.
  The code does not: \<^verbatim>\<open>Unprepare\<close> never locks, and neither does anything else in a
  cleanup pass, whatever the collaborators do. On the node of \<open>w_orphans\<close> the pass makes the
  calls listed, with no lock among them, while a prepare request on the same node is
  bracketed by the lock.
\<close>

theorem C5_cleanup_Unprepare_takes_no_lock:
  "CLock \<notin> set (made w (snd (Unprepare D claimUID w)))
   \<and> CLock \<notin> set (made w (snd (cleanupStaleState D nas w)))
   \<and> made w_orphans (snd (cleanupStaleState Sim nas_orphans w_orphans)) =
       [Enter_cleanupStaleState nas_orphans,
        Go_Unprepare ''B'', CGet, CStateUnprepare ''B'',
        Go_Unprepare ''C'', CGet, CStateUnprepare ''C'',
        CUpdate \<lparr>AllocatedClaims = [(''A'', [''gpu-0''])],
                 PreparedClaims = [(''A'', [''gpu-0'']), (''B'', [''gpu-1''])]\<rparr>]
   \<and> made w_orphans (snd (NodePrepareResource Sim \<lparr>ClaimUid = ''A''\<rparr> w_orphans)) =
       [CLock, CGet, CUnlock]"
proof -
  have "extends_by unit_calls w (snd (Unprepare D claimUID w))"
    by (rule Unprepare_extends) (auto simp: unit_calls_def)
  then have 1: "CLock \<notin> set (made w (snd (Unprepare D claimUID w)))"
    using extends_by_made [of unit_calls w "snd (Unprepare D claimUID w)"]
    by (auto simp: unit_calls_def)
  have 2: "CLock \<notin> set (made w (snd (cleanupStaleState D nas w)))"
    using cleanupStaleState_calls [of D nas w]
    by (auto simp: made_def unit_calls_def)
  have 3: "made w_orphans (snd (cleanupStaleState Sim nas_orphans w_orphans)) =
       [Enter_cleanupStaleState nas_orphans,
        Go_Unprepare ''B'', CGet, CStateUnprepare ''B'',
        Go_Unprepare ''C'', CGet, CStateUnprepare ''C'',
        CUpdate \<lparr>AllocatedClaims = [(''A'', [''gpu-0''])],
                 PreparedClaims = [(''A'', [''gpu-0'']), (''B'', [''gpu-1''])]\<rparr>]"
    by (simp add: run_defs sim_run_defs w_orphans_def nas_orphans_def string_of_nat_1 made_def)
  have 4: "made w_orphans (snd (NodePrepareResource Sim \<lparr>ClaimUid = ''A''\<rparr> w_orphans)) =
       [CLock, CGet, CUnlock]"
    by (simp add: NodePrepareResource_def IsPrepared_def run_defs sim_run_defs w_orphans_def
        nas_orphans_def made_def)
  from 1 2 3 4 show ?thesis by simp
qed

subsection \<open>Construction\<close>

lemma NewDriver_attempt_steps:
  "NewDriver_attempt D (d, w) =
     (case run_steps (construction_steps D) w of
        (Some err, w1) \<Rightarrow> (Some err, d, w1)
      | (None, w1) \<Rightarrow> (None, Some Driver, w1))"
  by (simp add: NewDriver_attempt_def construction_steps_def split: prod.splits option.splits)

lemma construction_steps_budget [simp]:
  "construction_steps (D\<lparr>impl_Steps := n\<rparr>) = construction_steps D"
  by (simp add: construction_steps_def nasclient_GetOrCreate_def nasclient_UpdateStatus_def
      NewDeviceState_def nasclient_Update_def state_GetUpdatedSpec_def)

lemma NewDriver_attempt_budget [simp]:
  "NewDriver_attempt (D\<lparr>impl_Steps := n\<rparr>) = NewDriver_attempt D"
proof
  fix x :: "driver option \<times> ('a, 'b, 'c) world"
  obtain d w where "x = (d, w)" by (cases x)
  then show "NewDriver_attempt (D\<lparr>impl_Steps := n\<rparr>) x = NewDriver_attempt D x"
    by (simp add: NewDriver_attempt_steps)
qed

lemma retry_loop_success:
  assumes "retry_loop n fn e x = (None, y)" and "0 < n \<or> e \<noteq> None"
      and "\<And>x. extends_by A (proj x) (proj (snd (fn x)))"
  shows "\<exists>x'. fn x' = (None, y) \<and> extends_by A (proj x) (proj x')"
  using assms(1,2)
proof (induction n arbitrary: x e)
  case 0
  then show ?case by simp
next
  case (Suc n)
  obtain r x1 where f: "fn x = (r, x1)" by (cases "fn x")
  have step: "extends_by A (proj x) (proj x1)" using assms(3) [of x] f by simp
  show ?case
  proof (cases r)
    case None
    with Suc.prems f have "y = x1" by simp
    with f None show ?thesis by (auto intro: extends_by_refl)
  next
    case (Some err)
    with Suc.prems f have c: "IsConflict err" and r: "retry_loop n fn (Some err) x1 = (None, y)"
      by (auto split: if_splits)
    from Suc.IH [OF r] obtain x' where "fn x' = (None, y)" "extends_by A (proj x1) (proj x')"
      by auto
    with step show ?thesis by (auto intro: extends_by_trans)
  qed
qed

lemma NewDriver_attempt_extends:
  "extends_by construction_calls (snd x) (snd (snd (NewDriver_attempt D x)))"
  unfolding NewDriver_attempt_def nasclient_GetOrCreate_def NewDeviceState_def
    nasclient_UpdateStatus_def nasclient_Update_def extends_by_def invoke_def construction_calls_def
  by (auto split: prod.splits option.splits)

lemma NewDriver_attempt_success:
  assumes "NewDriver_attempt D (d, w) = (None, d', w')"
  shows "d' = Some Driver \<and>
         (\<exists>spec. calls w' = calls w @ [CGetOrCreate, CUpdateStatus NotReady, CNewDeviceState,
                                     CUpdate spec, CUpdateStatus Ready])"
  using assms
  unfolding NewDriver_attempt_def nasclient_GetOrCreate_def NewDeviceState_def
    nasclient_UpdateStatus_def nasclient_Update_def invoke_def
  by (auto split: prod.splits option.splits)

lemma NewDriver_error:
  assumes "snd (fst (NewDriver D w)) \<noteq> None"
  shows "fst (fst (NewDriver D w)) = None
         \<and> Go_CleanupStaleStateContinuously \<notin> set (made w (snd (NewDriver D w)))"
proof -
  let ?r = "RetryOnConflict (impl_Steps D) (NewDriver_attempt D) (None, w)"
  obtain e d w' where r: "?r = (e, d, w')" by (cases ?r) auto
  from assms r obtain err where e: "e = Some err" by (cases e) (auto simp: NewDriver_def)
  have "extends_by construction_calls (snd (None, w)) (snd (snd ?r))"
    unfolding RetryOnConflict_def
    using retry_loop_extends [where proj = snd and fn = "NewDriver_attempt D"
        and A = construction_calls and x = "(None, w)"]
    by (simp add: NewDriver_attempt_extends)
  then have "set (made w w') \<subseteq> construction_calls" using r by (auto dest: extends_by_made)
  then show ?thesis using r e by (auto simp: NewDriver_def construction_calls_def)
qed

lemma NewDriver_success:
  assumes "snd (fst (NewDriver D w)) = None" and "0 < impl_Steps D"
  shows "fst (fst (NewDriver D w)) = Some Driver
         \<and> (\<exists>evs spec. made w (snd (NewDriver D w)) =
               evs @ [CGetOrCreate, CUpdateStatus NotReady, CNewDeviceState, CUpdate spec,
                      CUpdateStatus Ready, Go_CleanupStaleStateContinuously]
               \<and> Go_CleanupStaleStateContinuously \<notin> set evs)"
proof -
  let ?r = "RetryOnConflict (impl_Steps D) (NewDriver_attempt D) (None, w)"
  obtain e d w' where r: "?r = (e, d, w')" by (cases ?r) auto
  from assms r have e: "e = None" by (cases e) (auto simp: NewDriver_def)
  from r e have "retry_loop (impl_Steps D) (NewDriver_attempt D) None (None, w) = (None, d, w')"
    by (simp add: RetryOnConflict_def)
  from retry_loop_success [where proj = snd and A = construction_calls, OF this]
  obtain x' where x': "NewDriver_attempt D x' = (None, d, w')"
    and ext: "extends_by construction_calls w (snd x')"
    using assms(2) NewDriver_attempt_extends by fastforce
  obtain d0 w0 where x0: "x' = (d0, w0)" by (cases x')
  from NewDriver_attempt_success [of D d0 w0 d w'] x' x0 obtain spec where
    d: "d = Some Driver" and
    c: "calls w' = calls w0 @ [CGetOrCreate, CUpdateStatus NotReady, CNewDeviceState,
                               CUpdate spec, CUpdateStatus Ready]" by auto
  from ext x0 obtain evs where evs: "calls w0 = calls w @ evs" "set evs \<subseteq> construction_calls"
    by (auto simp: extends_by_def)
  have "made w (emit Go_CleanupStaleStateContinuously w') =
          evs @ [CGetOrCreate, CUpdateStatus NotReady, CNewDeviceState, CUpdate spec,
                 CUpdateStatus Ready, Go_CleanupStaleStateContinuously]"
    using c evs by (simp add: made_def emit_def)
  moreover have "Go_CleanupStaleStateContinuously \<notin> set evs"
    using evs(2) by (auto simp: construction_calls_def)
  ultimately show ?thesis using r e d by (auto simp: NewDriver_def)
qed

lemma NewDriver_abort:
  assumes "run_steps (construction_steps D) w = (Some e, w1)" and "\<not> IsConflict e"
      and "0 < impl_Steps D"
  shows "NewDriver D w = ((None, Some e), w1)"
proof -
  obtain n where n: "impl_Steps D = Suc n" using assms(3) by (cases "impl_Steps D") auto
  show ?thesis
    using assms(1,2)
    by (simp add: NewDriver_def RetryOnConflict_def n NewDriver_attempt_steps)
qed

lemma NewDriver_restart:
  assumes "run_steps (construction_steps D) w = (Some e, w1)" and "IsConflict e"
      and "impl_Steps D = Suc (Suc n)"
  shows "NewDriver D w = NewDriver (D\<lparr>impl_Steps := Suc n\<rparr>) w1"
  using assms
  by (simp add: NewDriver_def RetryOnConflict_def NewDriver_attempt_steps)

lemma NewDriver_exhausted:
  assumes "run_steps (construction_steps D) w = (Some e, w1)" and "IsConflict e"
      and "impl_Steps D = Suc 0"
  shows "NewDriver D w = ((None, Some e), w1)"
  using assms
  by (simp add: NewDriver_def RetryOnConflict_def NewDriver_attempt_steps)

lemma NewDriver_first_success:
  assumes "run_steps (construction_steps D) w = (None, w1)" and "0 < impl_Steps D"
  shows "NewDriver D w = ((Some Driver, None), emit Go_CleanupStaleStateContinuously w1)"
proof -
  obtain n where n: "impl_Steps D = Suc n" using assms(2) by (cases "impl_Steps D") auto
  show ?thesis
    using assms(1)
    by (simp add: NewDriver_def RetryOnConflict_def n NewDriver_attempt_steps)
qed


lemma retry_loop_count:
  assumes "\<And>x. \<exists>evs. calls (proj (snd (fn x))) = calls (proj x) @ evs \<and> count_list evs c \<le> 1"
  shows "\<exists>evs. calls (proj (snd (retry_loop n fn e x))) = calls (proj x) @ evs
               \<and> count_list evs c \<le> n"
proof (induction n arbitrary: x e)
  case 0
  show ?case by simp
next
  case (Suc n)
  obtain r x1 where f: "fn x = (r, x1)" by (cases "fn x")
  from assms [of x] f obtain evs where
    evs: "calls (proj x1) = calls (proj x) @ evs" "count_list evs c \<le> 1" by auto
  show ?case
  proof (cases "\<exists>err. r = Some err \<and> IsConflict err")
    case True
    then obtain err where err: "r = Some err" "IsConflict err" by auto
    from Suc.IH [of "Some err" x1] obtain evs' where
      "calls (proj (snd (retry_loop n fn (Some err) x1))) = calls (proj x1) @ evs'"
      "count_list evs' c \<le> n" by auto
    with evs have "calls (proj (snd (retry_loop n fn (Some err) x1))) = calls (proj x) @ (evs @ evs')
        \<and> count_list (evs @ evs') c \<le> Suc n" by simp
    then show ?thesis using f err by auto
  next
    case False
    then have "snd (retry_loop (Suc n) fn e x) = x1"
      using f by (cases r) auto
    with evs show ?thesis by auto
  qed
qed

lemma NewDriver_attempt_one_read:
  "\<exists>evs. calls (snd (snd (NewDriver_attempt D x))) = calls (snd x) @ evs
         \<and> count_list evs CGetOrCreate \<le> 1"
  unfolding NewDriver_attempt_def nasclient_GetOrCreate_def NewDeviceState_def
    nasclient_UpdateStatus_def nasclient_Update_def invoke_def
  by (auto split: prod.splits option.splits)

lemma NewDriver_reads:
  "count_list (made w (snd (NewDriver D w))) CGetOrCreate \<le> impl_Steps D"
proof -
  let ?r = "retry_loop (impl_Steps D) (NewDriver_attempt D) None (None, w)"
  from retry_loop_count [where proj = snd and fn = "NewDriver_attempt D" and c = CGetOrCreate
      and x = "(None, w)" and n = "impl_Steps D" and e = None]
  obtain evs where evs: "calls (snd (snd ?r)) = calls w @ evs"
      "count_list evs CGetOrCreate \<le> impl_Steps D"
    using NewDriver_attempt_one_read by fastforce
  obtain e d w' where r: "?r = (e, d, w')" by (cases ?r) auto
  show ?thesis
    using evs r
    by (cases e) (simp_all add: NewDriver_def RetryOnConflict_def made_def emit_def)
qed

text \<open>
  Claim C6. An attempt of the constructor is the five steps in order, stopped by the first
  error. When a step fails with an error that is not a conflict, the constructor returns that
  error and no driver, and makes no further call. When a step fails with a conflict, the rest
  of the run is a whole run of the constructor from the world the failed attempt left, with
  one attempt less, so it starts again at get-or-create; at the last attempt the conflict is
  returned. When the five steps succeed, the constructor returns the driver and its last
  call is the \<^verbatim>\<open>go\<close> statement. The fresh reads number at most the budget. Whenever an
  error is returned the driver is nil and the loop is not started; when none is returned the
  driver is returned, and the calls end with the five steps of the successful attempt
  followed by the \<^verbatim>\<open>go\<close>
  statement of the loop, after which the constructor makes no call.
\<close>

theorem C6_NewDriver_retry_abort_and_start:
  "NewDriver_attempt D (d, w) =
     (case run_steps (construction_steps D) w of
        (Some err, w') \<Rightarrow> (Some err, d, w')
      | (None, w') \<Rightarrow> (None, Some Driver, w'))
   \<and> (run_steps (construction_steps D) w = (Some e, w1) \<and> \<not> IsConflict e \<and> 0 < impl_Steps D
        \<longrightarrow> NewDriver D w = ((None, Some e), w1))
   \<and> (run_steps (construction_steps D) w = (Some e, w1) \<and> IsConflict e
          \<and> impl_Steps D = Suc (Suc n)
        \<longrightarrow> NewDriver D w = NewDriver (D\<lparr>impl_Steps := Suc n\<rparr>) w1)
   \<and> (run_steps (construction_steps D) w = (Some e, w1) \<and> IsConflict e
          \<and> impl_Steps D = Suc 0
        \<longrightarrow> NewDriver D w = ((None, Some e), w1))
   \<and> (run_steps (construction_steps D) w = (None, w1) \<and> 0 < impl_Steps D
        \<longrightarrow> NewDriver D w = ((Some Driver, None), emit Go_CleanupStaleStateContinuously w1))
   \<and> count_list (made w (snd (NewDriver D w))) CGetOrCreate \<le> impl_Steps D
   \<and> (snd (fst (NewDriver D w)) \<noteq> None
        \<longrightarrow> fst (fst (NewDriver D w)) = None
            \<and> Go_CleanupStaleStateContinuously \<notin> set (made w (snd (NewDriver D w))))
   \<and> (snd (fst (NewDriver D w)) = None \<and> 0 < impl_Steps D
        \<longrightarrow> fst (fst (NewDriver D w)) = Some Driver
            \<and> (\<exists>evs spec. made w (snd (NewDriver D w)) =
                  evs @ [CGetOrCreate, CUpdateStatus NotReady, CNewDeviceState, CUpdate spec,
                         CUpdateStatus Ready, Go_CleanupStaleStateContinuously]
                  \<and> Go_CleanupStaleStateContinuously \<notin> set evs))"
  using NewDriver_attempt_steps [of D d w] NewDriver_abort [of D w e w1]
    NewDriver_restart [of D w e w1 n] NewDriver_exhausted [of D w e w1]
    NewDriver_first_success [of D w w1]
    NewDriver_reads [of w D] NewDriver_error [of D w] NewDriver_success [of D w]
  by blast

lemmas construct_defs = NewDriver_def NewDriver_attempt_def RetryOnConflict_def
  construction_steps_def nasclient_GetOrCreate_def nasclient_UpdateStatus_def
  NewDeviceState_def nasclient_Update_def state_GetUpdatedSpec_def invoke_def emit_def

text \<open>
  On a node at its first start: a failure of the device state to initialise aborts the
  constructor, which starts no loop; a conflict at the second step restarts it from
  get-or-create, and ends it when the budget is one attempt; with no failure it returns the
  driver, the record ends Ready with no prepared claim, and there is one fresh read.
\<close>

theorem C6_NewDriver_retry_abort_and_start_witness:
  "run_steps (construction_steps Sim) (w_fresh [None, None, Some (Failure ''no devices found'')]) =
     (Some (Failure ''no devices found''),
      w_started 2 NotReady [CGetOrCreate, CUpdateStatus NotReady, CNewDeviceState])
   \<and> \<not> IsConflict (Failure ''no devices found'') \<and> 0 < impl_Steps Sim
   \<and> NewDriver Sim (w_fresh [None, None, Some (Failure ''no devices found'')]) =
       ((None, Some (Failure ''no devices found'')),
        w_started 2 NotReady [CGetOrCreate, CUpdateStatus NotReady, CNewDeviceState])
   \<and> Go_CleanupStaleStateContinuously \<notin>
        set (made (w_fresh [None, None, Some (Failure ''no devices found'')])
               (snd (NewDriver Sim (w_fresh [None, None, Some (Failure ''no devices found'')]))))
   \<and> run_steps (construction_steps Sim) (w_fresh [None, Some (Conflict ''modified'')]) =
       (Some (Conflict ''modified''), w_started 1 NotReady [CGetOrCreate, CUpdateStatus NotReady])
   \<and> IsConflict (Conflict ''modified'') \<and> impl_Steps Sim = Suc (Suc 3)
   \<and> NewDriver Sim (w_fresh [None, Some (Conflict ''modified'')]) =
       NewDriver (Sim\<lparr>impl_Steps := Suc 3\<rparr>)
         (w_started 1 NotReady [CGetOrCreate, CUpdateStatus NotReady])
   \<and> NewDriver Sim (w_fresh [None, Some (Conflict ''modified'')]) =
       ((Some Driver, None),
        w_started 4 Ready
          [CGetOrCreate, CUpdateStatus NotReady,
           CGetOrCreate, CUpdateStatus NotReady, CNewDeviceState,
           CUpdate \<lparr>AllocatedClaims = [], PreparedClaims = []\<rparr>, CUpdateStatus Ready,
           Go_CleanupStaleStateContinuously])
   \<and> NewDriver (Sim\<lparr>impl_Steps := Suc 0\<rparr>) (w_fresh [None, Some (Conflict ''modified'')]) =
       ((None, Some (Conflict ''modified'')),
        w_started 1 NotReady [CGetOrCreate, CUpdateStatus NotReady])
   \<and> run_steps (construction_steps Sim) (w_fresh []) =
       (None, w_started 4 Ready
                [CGetOrCreate, CUpdateStatus NotReady, CNewDeviceState,
                 CUpdate \<lparr>AllocatedClaims = [], PreparedClaims = []\<rparr>, CUpdateStatus Ready])
   \<and> NewDriver Sim (w_fresh []) =
       ((Some Driver, None),
        w_started 4 Ready
          [CGetOrCreate, CUpdateStatus NotReady, CNewDeviceState,
           CUpdate \<lparr>AllocatedClaims = [], PreparedClaims = []\<rparr>, CUpdateStatus Ready,
           Go_CleanupStaleStateContinuously])
   \<and> count_list (made (w_fresh []) (snd (NewDriver Sim (w_fresh [])))) CGetOrCreate \<le> 5"
proof -
  let ?e = "Failure ''no devices found''"
  let ?c = "Conflict ''modified''"
  let ?wa = "w_fresh [None, None, Some ?e]"
  let ?wa1 = "w_started 2 NotReady [CGetOrCreate, CUpdateStatus NotReady, CNewDeviceState]"
  let ?wc = "w_fresh [None, Some ?c]"
  let ?wc1 = "w_started 1 NotReady [CGetOrCreate, CUpdateStatus NotReady]"
  let ?w5 = "w_started 4 Ready
                [CGetOrCreate, CUpdateStatus NotReady, CNewDeviceState,
                 CUpdate \<lparr>AllocatedClaims = [], PreparedClaims = []\<rparr>, CUpdateStatus Ready]"
  let ?D1 = "Sim\<lparr>impl_Steps := Suc 0\<rparr>"
  note c6 = C6_NewDriver_retry_abort_and_start
  have a: "run_steps (construction_steps Sim) ?wa = (Some ?e, ?wa1)"
    by (simp add: construct_defs sim_run_defs w_fresh_def w_started_def node1_def)
  have c: "run_steps (construction_steps Sim) ?wc = (Some ?c, ?wc1)"
    by (simp add: construct_defs sim_run_defs w_fresh_def w_started_def node1_def)
  have f: "run_steps (construction_steps Sim) (w_fresh []) = (None, ?w5)"
    by (simp add: construct_defs sim_run_defs w_fresh_def w_started_def node1_def)
  have s: "impl_Steps Sim = Suc (Suc 3)"
    by (simp add: Sim_def DefaultRetry_Steps_def)
  have p: "0 < impl_Steps Sim" using s by simp
  have n: "\<not> IsConflict ?e" and y: "IsConflict ?c" by simp_all
  from c6 [of Sim None ?wa ?e ?wa1] a n p
  have abort: "NewDriver Sim ?wa = ((None, Some ?e), ?wa1)" by blast
  then have "snd (fst (NewDriver Sim ?wa)) \<noteq> None" by simp
  with c6 [of Sim None ?wa ?e ?wa1]
  have nogo: "Go_CleanupStaleStateContinuously \<notin> set (made ?wa (snd (NewDriver Sim ?wa)))"
    by blast
  from c6 [of Sim None ?wc ?c ?wc1 3] c y s
  have restart: "NewDriver Sim ?wc = NewDriver (Sim\<lparr>impl_Steps := Suc 3\<rparr>) ?wc1" by blast
  have again: "NewDriver Sim ?wc =
       ((Some Driver, None),
        w_started 4 Ready
          [CGetOrCreate, CUpdateStatus NotReady,
           CGetOrCreate, CUpdateStatus NotReady, CNewDeviceState,
           CUpdate \<lparr>AllocatedClaims = [], PreparedClaims = []\<rparr>, CUpdateStatus Ready,
           Go_CleanupStaleStateContinuously])"
    by (simp add: construct_defs sim_run_defs w_fresh_def w_started_def node1_def)
  have c1: "run_steps (construction_steps ?D1) ?wc = (Some ?c, ?wc1)" using c by simp
  have s1: "impl_Steps ?D1 = Suc 0" by simp
  from c6 [of ?D1 None ?wc ?c ?wc1] c1 y s1
  have exhausted: "NewDriver ?D1 ?wc = ((None, Some ?c), ?wc1)" by blast
  from c6 [of Sim None "w_fresh []" ?e ?w5] f p
  have first: "NewDriver Sim (w_fresh []) =
                 ((Some Driver, None), emit Go_CleanupStaleStateContinuously ?w5)" by blast
  have e5: "emit Go_CleanupStaleStateContinuously ?w5 =
        w_started 4 Ready
          [CGetOrCreate, CUpdateStatus NotReady, CNewDeviceState,
           CUpdate \<lparr>AllocatedClaims = [], PreparedClaims = []\<rparr>, CUpdateStatus Ready,
           Go_CleanupStaleStateContinuously]"
    by (simp add: emit_def w_started_def)
  from c6 [of Sim None "w_fresh []" ?e ?w5] s
  have reads: "count_list (made (w_fresh []) (snd (NewDriver Sim (w_fresh [])))) CGetOrCreate \<le> 5"
    by simp
  from a n p abort nogo c y s restart again exhausted f first e5 reads
  show ?thesis by simp
qed

subsection \<open>The reconciliation loop\<close>















subsection \<open>The driver on the modelled collaborators\<close>

lemmas sim_call_defs = nasclient_Get_def nasclient_Update_def state_Unprepare_def state_Prepare_def
  state_GetUpdatedSpec_def invoke_def Sim_def sim_Get_def sim_Update_def sim_Unprepare_def sim_Prepare_def
  sim_GetUpdatedSpec_def sim_GetClaimDevices_def next_outcome_def



























lemma sim_Prepare_attempt_conflict:
  assumes "server (ext w) = Some rec" and "allocation_of rec uid \<noteq> []"
      and "outcomes (ext w) = None # None # Some (Conflict m) # rest"
  shows "Prepare_attempt Sim uid (p, w) =
           (Some (Conflict m), allocation_of rec uid,
            \<lparr>ext = (ext w)\<lparr>mirror := rec,
                    reservations := AList.update uid (allocation_of rec uid) (reservations (ext w)),
                    outcomes := rest\<rparr>,
             calls = calls w @
                       [CGet, CStatePrepare uid (allocation_of rec uid),
                        CUpdate ((Spec rec)\<lparr>PreparedClaims :=
                           AList.update uid (allocation_of rec uid) (reservations (ext w))\<rparr>)]\<rparr>)"
  using assms
  by (simp add: Prepare_attempt_def sim_call_defs allocation_of_def)

lemma sim_Prepare_retry_conflicts:
  assumes "server (ext w) = Some rec" and "allocation_of rec uid \<noteq> []"
      and "outcomes (ext w) = concat (replicate (Suc n) [None, None, Some (Conflict m)]) @ rest"
  shows "retry_loop (Suc n) (Prepare_attempt Sim uid) e (p, w) =
           (Some (Conflict m), allocation_of rec uid,
            \<lparr>ext = (ext w)\<lparr>mirror := rec,
                    reservations := AList.update uid (allocation_of rec uid) (reservations (ext w)),
                    outcomes := rest\<rparr>,
             calls = calls w @ concat (replicate (Suc n)
                       [CGet, CStatePrepare uid (allocation_of rec uid),
                        CUpdate ((Spec rec)\<lparr>PreparedClaims :=
                           AList.update uid (allocation_of rec uid) (reservations (ext w))\<rparr>)])\<rparr>)"
  using assms
proof (induction n arbitrary: w e p)
  case 0
  from sim_Prepare_attempt_conflict [of w rec uid m rest p] 0
  show ?case by simp
next
  case (Suc n)
  let ?a = "allocation_of rec uid"
  let ?rest1 = "concat (replicate (Suc n) [None, None, Some (Conflict m)]) @ rest"
  let ?w1 = "\<lparr>ext = (ext w)\<lparr>mirror := rec,
                    reservations := AList.update uid ?a (reservations (ext w)),
                    outcomes := ?rest1\<rparr>,
             calls = calls w @
                       [CGet, CStatePrepare uid ?a,
                        CUpdate ((Spec rec)\<lparr>PreparedClaims :=
                           AList.update uid ?a (reservations (ext w))\<rparr>)]\<rparr>"
  have o: "outcomes (ext w) = None # None # Some (Conflict m) # ?rest1"
    using Suc.prems(3) by simp
  have a: "Prepare_attempt Sim uid (p, w) = (Some (Conflict m), ?a, ?w1)"
    by (rule sim_Prepare_attempt_conflict [OF Suc.prems(1,2) o])
  have s1: "server (ext ?w1) = Some rec" using Suc.prems(1) by simp
  have o1: "outcomes (ext ?w1) = ?rest1" by simp
  have "retry_loop (Suc (Suc n)) (Prepare_attempt Sim uid) e (p, w) =
          retry_loop (Suc n) (Prepare_attempt Sim uid) (Some (Conflict m)) (?a, ?w1)"
    by (simp add: a del: retry_loop.simps(2)) (simp add: a)
  also have "\<dots> = (Some (Conflict m), ?a,
            \<lparr>ext = (ext ?w1)\<lparr>mirror := rec,
                    reservations := AList.update uid ?a (reservations (ext ?w1)),
                    outcomes := rest\<rparr>,
             calls = calls ?w1 @ concat (replicate (Suc n)
                       [CGet, CStatePrepare uid ?a,
                        CUpdate ((Spec rec)\<lparr>PreparedClaims :=
                           AList.update uid ?a (reservations (ext ?w1))\<rparr>)])\<rparr>)"
    by (rule Suc.IH [OF s1 Suc.prems(2) o1])
  finally show ?case by simp
qed

lemma sim_Prepare_exhausted:
  assumes "server (ext w) = Some rec" and "allocation_of rec uid \<noteq> []"
      and "outcomes (ext w) =
             concat (replicate DefaultRetry_Steps [None, None, Some (Conflict m)]) @ rest"
  shows "Prepare Sim uid w =
           (([], Some (Conflict m)),
            \<lparr>ext = (ext w)\<lparr>mirror := rec,
                    reservations := AList.update uid (allocation_of rec uid) (reservations (ext w)),
                    outcomes := rest\<rparr>,
             calls = calls w @ concat (replicate DefaultRetry_Steps
                       [CGet, CStatePrepare uid (allocation_of rec uid),
                        CUpdate ((Spec rec)\<lparr>PreparedClaims :=
                           AList.update uid (allocation_of rec uid) (reservations (ext w))\<rparr>)])\<rparr>)"
proof -
  have d: "DefaultRetry_Steps = Suc 4" by (simp add: DefaultRetry_Steps_def)
  have i: "impl_Steps Sim = Suc 4" by (simp add: Sim_def d)
  from sim_Prepare_retry_conflicts [OF assms(1,2), of 4 m rest None "[]"] assms(3)
  show ?thesis
    unfolding Prepare_def RetryOnConflict_def i d by simp
qed

lemma Prepare_no_rollback: "CStateUnprepare u \<notin> set (made v (snd (Prepare D uid v)))"
proof -
  have "extends_by ({CGet} \<union> range (CStatePrepare uid) \<union> range CUpdate) v (snd (Prepare D uid v))"
    by (rule Prepare_extends) simp
  from extends_by_made [OF this] show ?thesis by auto
qed

lemma Prepare_error_nil: "snd (fst (Prepare D uid v)) \<noteq> None \<Longrightarrow> fst (fst (Prepare D uid v)) = []"
  by (auto simp: Prepare_def split: prod.splits option.splits)


subsection \<open>Orphaned claims\<close>



subsection \<open>Prepare when every write conflicts\<close>

lemma replicate_5: "replicate 5 x = [x, x, x, x, x]"
  by (simp add: eval_nat_numeral)

lemmas prepare_defs = NodePrepareResource_def IsPrepared_def Prepare_def Prepare_attempt_def
  RetryOnConflict_def nasclient_Get_def nasclient_Update_def state_Prepare_def
  state_GetUpdatedSpec_def invoke_def emit_def exists_key_def index_or_zero_def

text \<open>
  Claim C4 says that no reservation is left in the device state manager when \<^verbatim>\<open>Prepare\<close>
  gives up. On the node of \<open>w_alloc\<close>, where claim B is allocated and not prepared, with a
  script in which each of the five writes conflicts: \<^verbatim>\<open>Prepare\<close> returns the conflict and no
  device list, the record at the server is as before, and the device state manager, which
  held A only, now holds a reservation for B. Each attempt called the manager's Prepare
  before its write, and no call released the reservation.
\<close>

theorem C4_reservation_stays_counterexample:
  "fst (Prepare Sim ''B'' (w_alloc (concat (replicate 5 [None, None, Some (Conflict ''modified'')]))))
     = ([], Some (Conflict ''modified''))
   \<and> reservations (ext (w_alloc (concat (replicate 5 [None, None, Some (Conflict ''modified'')]))))
     = [(''A'', [''gpu-0''])]
   \<and> reservations (ext (snd (Prepare Sim ''B''
         (w_alloc (concat (replicate 5 [None, None, Some (Conflict ''modified'')]))))))
     = [(''A'', [''gpu-0'']), (''B'', [''gpu-1''])]
   \<and> server (ext (snd (Prepare Sim ''B''
         (w_alloc (concat (replicate 5 [None, None, Some (Conflict ''modified'')]))))))
     = Some nas_alloc
   \<and> calls (snd (Prepare Sim ''B''
         (w_alloc (concat (replicate 5 [None, None, Some (Conflict ''modified'')])))))
     = concat (replicate 5
         [CGet, CStatePrepare ''B'' [''gpu-1''],
          CUpdate \<lparr>AllocatedClaims = [(''A'', [''gpu-0'']), (''B'', [''gpu-1''])],
                   PreparedClaims = [(''A'', [''gpu-0'']), (''B'', [''gpu-1''])]\<rparr>])"
  by (simp add: replicate_5 prepare_defs sim_run_defs w_alloc_def nas_alloc_def)

text \<open>
  Claim C4, amended. On the modelled collaborators, when each attempt up to the retry budget
  refreshes the record, reserves the devices and meets a conflict on its write, \<^verbatim>\<open>Prepare\<close>
  returns the conflict error and no device list and the record at the server is not written;
  the reservation that the device state manager made stays. For any collaborators,
  \<^verbatim>\<open>Prepare\<close> never calls the manager's Unprepare, and it returns no device list whenever
  it returns an error.
\<close>

theorem C4_Prepare_conflicts_exhausted:
  "(server (ext w) = Some rec \<and> allocation_of rec claimUID \<noteq> []
      \<and> outcomes (ext w) =
            concat (replicate DefaultRetry_Steps [None, None, Some (Conflict m)]) @ rest \<longrightarrow>
      Prepare Sim claimUID w =
        (([], Some (Conflict m)),
         \<lparr>ext = (ext w)\<lparr>mirror := rec,
                 reservations :=
                   AList.update claimUID (allocation_of rec claimUID) (reservations (ext w)),
                 outcomes := rest\<rparr>,
          calls = calls w @ concat (replicate DefaultRetry_Steps
                    [CGet, CStatePrepare claimUID (allocation_of rec claimUID),
                     CUpdate ((Spec rec)\<lparr>PreparedClaims :=
                        AList.update claimUID (allocation_of rec claimUID)
                          (reservations (ext w))\<rparr>)])\<rparr>))
   \<and> CStateUnprepare u \<notin> set (made v (snd (Prepare D uid v)))
   \<and> (snd (fst (Prepare D uid v)) \<noteq> None \<longrightarrow> fst (fst (Prepare D uid v)) = [])"
  using sim_Prepare_exhausted [of w rec claimUID m rest] Prepare_no_rollback [of u v D uid]
    Prepare_error_nil [of D uid v]
  by blast

text \<open>
  On the node of \<open>w_alloc\<close> with five conflicts scripted and one more outcome left over.
\<close>

theorem C4_Prepare_conflicts_exhausted_witness:
  "server (ext (w_alloc (concat (replicate DefaultRetry_Steps
                                   [None, None, Some (Conflict ''modified'')]) @ [None])))
     = Some nas_alloc
   \<and> allocation_of nas_alloc ''B'' = [''gpu-1'']
   \<and> Prepare Sim ''B'' (w_alloc (concat (replicate DefaultRetry_Steps
                                   [None, None, Some (Conflict ''modified'')]) @ [None])) =
       (([], Some (Conflict ''modified'')),
        \<lparr>ext = \<lparr>server = Some nas_alloc, version = 7, mirror = nas_alloc,
                reservations = [(''A'', [''gpu-0'']), (''B'', [''gpu-1''])],
                stream = [], outcomes = [None]\<rparr>,
         calls = concat (replicate DefaultRetry_Steps
                   [CGet, CStatePrepare ''B'' [''gpu-1''],
                    CUpdate \<lparr>AllocatedClaims = [(''A'', [''gpu-0'']), (''B'', [''gpu-1''])],
                             PreparedClaims = [(''A'', [''gpu-0'']), (''B'', [''gpu-1''])]\<rparr>])\<rparr>)"
proof -
  let ?script = "concat (replicate DefaultRetry_Steps [None, None, Some (Conflict ''modified'')])
                   @ [None]"
  have s: "server (ext (w_alloc ?script)) = Some nas_alloc" by (simp add: w_alloc_def)
  have a: "allocation_of nas_alloc ''B'' = [''gpu-1'']"
    by (simp add: allocation_of_def index_or_zero_def nas_alloc_def)
  have o: "outcomes (ext (w_alloc ?script)) = ?script" by (simp add: w_alloc_def)
  have h: "server (ext (w_alloc ?script)) = Some nas_alloc
            \<and> allocation_of nas_alloc ''B'' \<noteq> []
            \<and> outcomes (ext (w_alloc ?script)) =
                concat (replicate DefaultRetry_Steps [None, None, Some (Conflict ''modified'')])
                  @ [None]"
    using s a o by simp
  have "Prepare Sim ''B'' (w_alloc ?script) =
        (([], Some (Conflict ''modified'')),
         \<lparr>ext = (ext (w_alloc ?script))\<lparr>mirror := nas_alloc,
                 reservations := AList.update ''B'' (allocation_of nas_alloc ''B'')
                                   (reservations (ext (w_alloc ?script))),
                 outcomes := [None]\<rparr>,
          calls = calls (w_alloc ?script) @ concat (replicate DefaultRetry_Steps
                    [CGet, CStatePrepare ''B'' (allocation_of nas_alloc ''B''),
                     CUpdate ((Spec nas_alloc)\<lparr>PreparedClaims :=
                        AList.update ''B'' (allocation_of nas_alloc ''B'')
                          (reservations (ext (w_alloc ?script)))\<rparr>)])\<rparr>)"
    by (rule C4_Prepare_conflicts_exhausted [of "w_alloc ?script" nas_alloc "''B''"
          "''modified''" "[None]", THEN conjunct1, THEN mp, OF h])
  with s a show ?thesis by (simp add: w_alloc_def nas_alloc_def)
qed

subsection \<open>Preparing a claim twice\<close>



end
